theory Spec2Isabelle
  imports Complex_Main
begin

section \<open>WoL-Caster: network discovery and device identity resolution\<close>

text \<open>
  A shallow embedding of the discovery engine of \<^verbatim>\<open>wol_caster.py\<close>: the MAC padding
  rule, the vendor lookup, the status prober, the identity resolver, the chunked scanners
  and the known-device merge of \<^verbatim>\<open>update_tree_view\<close>.  Every call that leaves the process
  (ping, sockets, arp, DNS, the OUI file, the clock) is a field of an environment record;
  a call that may raise has a result of the type \<open>call\<close>, whose \<open>Raises\<close> is the
  exception.
\<close>

subsection \<open>Python string operations\<close>

text \<open>
  A \<open>string\<close> is a list of bytes.  MAC text, dotted IPv4 literals and DNS host names are
  ASCII, one \<open>char\<close> for each character, and \<open>py_upper\<close> is \<^verbatim>\<open>str.upper\<close> on them.
  A line of the OUI file, which Python decodes as UTF-8, is held in its UTF-8 encoding:
  one \<open>char\<close> for an ASCII character, two to four for any other.  Splitting at an ASCII
  character, the substring test and the prefix test give the same result on the
  encoding as on the characters.
\<close>

definition upper_char :: "char \<Rightarrow> char" where
  "upper_char c =
     (case map_of (zip ''abcdefghijklmnopqrstuvwxyz'' ''ABCDEFGHIJKLMNOPQRSTUVWXYZ'') c of
        Some u \<Rightarrow> u
      | None \<Rightarrow> c)"

definition py_upper :: "string \<Rightarrow> string" where
  "py_upper s = map upper_char s"

text \<open>\<^verbatim>\<open>s.replace(old, new)\<close> for a one-character \<open>old\<close>.\<close>

definition py_replace :: "char \<Rightarrow> string \<Rightarrow> string \<Rightarrow> string" where
  "py_replace old new s = concat (map (\<lambda>c. if c = old then new else [c]) s)"

text \<open>\<^verbatim>\<open>s.split(sep)\<close> for a one-character separator: never the empty list.\<close>

fun py_split :: "char \<Rightarrow> string \<Rightarrow> string list" where
  "py_split sep [] = [[]]"
| "py_split sep (c # cs) =
     (if c = sep then [] # py_split sep cs
      else (case py_split sep cs of
              [] \<Rightarrow> [[c]]
            | w # ws \<Rightarrow> (c # w) # ws))"

text \<open>\<^verbatim>\<open>sep.join(parts)\<close>.\<close>

fun py_join :: "string \<Rightarrow> string list \<Rightarrow> string" where
  "py_join sep [] = []"
| "py_join sep [p] = p"
| "py_join sep (p # q # ps) = p @ sep @ py_join sep (q # ps)"

text \<open>The slice \<^verbatim>\<open>s[i:j]\<close> for non-negative bounds.\<close>

definition py_slice :: "'a list \<Rightarrow> nat \<Rightarrow> nat \<Rightarrow> 'a list" where
  "py_slice s i j = take (j - i) (drop i s)"

text \<open>\<^verbatim>\<open>s.startswith(p)\<close> and the substring test \<^verbatim>\<open>sub in s\<close>.\<close>

definition startswith :: "string \<Rightarrow> string \<Rightarrow> bool" where
  "startswith s p = (take (length p) s = p)"

fun py_in :: "string \<Rightarrow> string \<Rightarrow> bool" where
  "py_in sub [] = (sub = [])"
| "py_in sub (c # cs) = (startswith (c # cs) sub \<or> py_in sub cs)"

text \<open>
  \<^verbatim>\<open>s.strip()\<close>.  Python removes from both ends every character for which
  \<^verbatim>\<open>str.isspace\<close> holds: U+0009 to U+000D, U+001C to U+0020, U+0085, U+00A0, U+1680,
  U+2000 to U+200A, U+2028, U+2029, U+202F, U+205F and U+3000.  \<open>space_codes\<close> lists
  their UTF-8 encodings; in well-formed UTF-8 a text begins (ends) with one of these byte
  sequences exactly when its first (last) character is that white space character.
\<close>

definition space_codes :: "string list" where
  "space_codes =
     [[CHR 0x09], [CHR 0x0A], [CHR 0x0B], [CHR 0x0C], [CHR 0x0D],
      [CHR 0x1C], [CHR 0x1D], [CHR 0x1E], [CHR 0x1F], [CHR 0x20],
      [CHR 0xC2, CHR 0x85], [CHR 0xC2, CHR 0xA0],
      [CHR 0xE1, CHR 0x9A, CHR 0x80],
      [CHR 0xE2, CHR 0x80, CHR 0x80], [CHR 0xE2, CHR 0x80, CHR 0x81],
      [CHR 0xE2, CHR 0x80, CHR 0x82], [CHR 0xE2, CHR 0x80, CHR 0x83],
      [CHR 0xE2, CHR 0x80, CHR 0x84], [CHR 0xE2, CHR 0x80, CHR 0x85],
      [CHR 0xE2, CHR 0x80, CHR 0x86], [CHR 0xE2, CHR 0x80, CHR 0x87],
      [CHR 0xE2, CHR 0x80, CHR 0x88], [CHR 0xE2, CHR 0x80, CHR 0x89],
      [CHR 0xE2, CHR 0x80, CHR 0x8A],
      [CHR 0xE2, CHR 0x80, CHR 0xA8], [CHR 0xE2, CHR 0x80, CHR 0xA9],
      [CHR 0xE2, CHR 0x80, CHR 0xAF],
      [CHR 0xE2, CHR 0x81, CHR 0x9F],
      [CHR 0xE3, CHR 0x80, CHR 0x80]]"

text \<open>
  The number of bytes of the code that \<open>s\<close> begins with (none: 0), and \<open>s\<close> without
  all the codes it begins with.
\<close>

definition leading :: "string list \<Rightarrow> string \<Rightarrow> nat" where
  "leading codes s =
     (case List.find (startswith s) codes of None \<Rightarrow> 0 | Some w \<Rightarrow> length w)"

function strip_leading :: "string list \<Rightarrow> string \<Rightarrow> string" where
  "strip_leading codes s =
     (if leading codes s = 0 then s else strip_leading codes (drop (leading codes s) s))"
  by pat_completeness auto
termination
proof (relation "measure (\<lambda>(codes, s). length s)")
  show "wf (measure (\<lambda>(codes, s). length s))"
    by simp
next
  fix codes :: "string list" and s :: string
  assume pos: "leading codes s \<noteq> 0"
  have "s \<noteq> []"
  proof
    assume "s = []"
    with pos show False
      by (auto simp add: leading_def startswith_def find_Some_iff split: option.splits)
  qed
  with pos have "length s - leading codes s < length s"
    by (cases s) simp_all
  then show "((codes, drop (leading codes s) s), (codes, s)) \<in> measure (\<lambda>(codes, s). length s)"
    by simp
qed

definition py_strip :: "string \<Rightarrow> string" where
  "py_strip s = rev (strip_leading (map rev space_codes) (rev (strip_leading space_codes s)))"

subsection \<open>MAC resolver: the padding rule\<close>

text \<open>\<^verbatim>\<open>':'.join([m[i:i+2] for i in range(0, 12, 2)])\<close>\<close>

definition colon_pairs :: "string \<Rightarrow> string" where
  "colon_pairs m = py_join '':'' (map (\<lambda>i. py_slice m i (i + 2)) [0, 2, 4, 6, 8, 10])"

text \<open>
  \<^verbatim>\<open>pad_mac_address\<close> (lines 551-582).  The two \<^verbatim>\<open>print\<close> calls are left out.
\<close>

definition pad_mac_address :: "string \<Rightarrow> string" where
  "pad_mac_address mac_address =
     (if mac_address = [] then mac_address
      else
        let clean_mac = py_replace CHR ''-'' [] (py_replace CHR '':'' [] mac_address);
            current_length = length clean_mac
        in if current_length = 12 then colon_pairs clean_mac
           else if current_length < 12 then
             (let needed_zeros = 12 - current_length;
                  padded_mac = replicate needed_zeros CHR ''0'' @ clean_mac
              in colon_pairs padded_mac)
           else
             (let truncated_mac = py_slice clean_mac 0 12
              in colon_pairs truncated_mac))"

text \<open>
  The two places of \<^verbatim>\<open>get_mac_address\<close> (lines 524-526 and 542-544) that turn a regular
  expression match into the returned address:
  \<^verbatim>\<open>mac = match.group(0).upper().replace('-', ':'); mac = pad_mac_address(mac)\<close>.
\<close>

definition mac_of_match :: "string \<Rightarrow> string" where
  "mac_of_match m = pad_mac_address (py_replace CHR ''-'' '':'' (py_upper m))"

text \<open>The separators removed by the padding rule, and the twelve characters it formats.\<close>

definition strip_separators :: "string \<Rightarrow> string" where
  "strip_separators s = filter (\<lambda>c. c \<noteq> CHR '':'' \<and> c \<noteq> CHR ''-'') s"

definition twelve :: "string \<Rightarrow> string" where
  "twelve clean =
     (if length clean = 12 then clean
      else if length clean < 12 then replicate (12 - length clean) CHR ''0'' @ clean
      else take 12 clean)"

subsection \<open>Vendor lookup\<close>

text \<open>The hardcoded fallback table of \<^verbatim>\<open>get_mac_vendor\<close> (lines 627-635).\<close>

definition common_vendors :: "(string \<times> string) list" where
  "common_vendors =
     [(''00:50:56'', ''VMware''),
      (''00:0C:29'', ''VMware''),
      (''00:1A:11'', ''Google''),
      (''00:16:3E'', ''Xen''),
      (''52:54:00'', ''QEMU''),
      (''08:00:27'', ''VirtualBox''),
      (''0E:C6:63'', ''ASIX ELECTRONICS CORP.'')]"

text \<open>
  The loop \<^verbatim>\<open>for line in f\<close> over the OUI file (lines 611-622): the first line that
  contains the prefix, has a second tab-separated field and a non-blank vendor there,
  ends the search.
\<close>

fun oui_search :: "string \<Rightarrow> string list \<Rightarrow> string option" where
  "oui_search db_prefix [] = None"
| "oui_search db_prefix (raw # rest) =
     (let line = py_strip raw
      in if line \<noteq> [] \<and> py_in db_prefix line then
           (let parts = py_split CHR 0x09 line
            in if 2 \<le> length parts then
                 (let vendor = py_strip (parts ! 1)
                  in if vendor \<noteq> [] then Some vendor else oui_search db_prefix rest)
               else oui_search db_prefix rest)
         else oui_search db_prefix rest)"

text \<open>
  \<^verbatim>\<open>get_mac_vendor\<close> (lines 584-644).  The OUI file is \<open>None\<close> when
  \<^verbatim>\<open>os.path.exists\<close> is false and \<open>Some lines\<close> otherwise, \<open>lines\<close> being the lines
  that the file object delivers (decoded as UTF-8, bytes that do not decode left out)
  before the end of the file or before a read error: the handler of line 623
  only prints and falls through to the table, as the end of the loop does.  The result
  \<open>None\<close> is Python's \<^verbatim>\<open>None\<close>.
\<close>

definition get_mac_vendor :: "string list option \<Rightarrow> string \<Rightarrow> string option" where
  "get_mac_vendor oui_file mac_address =
     (if mac_address = [] \<or> length (py_split CHR '':'' mac_address) < 3 then None
      else
        let mac_prefix = py_upper (py_join '':'' (take 3 (py_split CHR '':'' mac_address)));
            db_prefix = py_upper (py_replace CHR '':'' [] mac_prefix)
        in case (case oui_file of
                   None \<Rightarrow> None
                 | Some lines \<Rightarrow> oui_search db_prefix lines) of
             Some vendor \<Rightarrow> Some vendor
           | None \<Rightarrow> map_of common_vendors mac_prefix)"

text \<open>
  The vocabulary of the specification: the OUI prefix of an address in its two spellings,
  and what one line of the database yields for a prefix.
\<close>

definition oui_colon_prefix :: "string \<Rightarrow> string" where
  "oui_colon_prefix mac = py_upper (py_join '':'' (take 3 (py_split CHR '':'' mac)))"

definition oui_hex_prefix :: "string \<Rightarrow> string" where
  "oui_hex_prefix mac = py_upper (filter (\<lambda>c. c \<noteq> CHR '':'') (oui_colon_prefix mac))"

definition line_vendor :: "string \<Rightarrow> string \<Rightarrow> string option" where
  "line_vendor pre raw =
     (let line = py_strip raw; parts = py_split CHR 0x09 line
      in if line \<noteq> [] \<and> py_in pre line \<and> 2 \<le> length parts \<and> py_strip (parts ! 1) \<noteq> []
         then Some (py_strip (parts ! 1)) else None)"

definition database_vendor :: "string list option \<Rightarrow> string \<Rightarrow> string option" where
  "database_vendor oui_file pre =
     (case oui_file of
        None \<Rightarrow> None
      | Some lines \<Rightarrow>
          (case List.find (\<lambda>raw. line_vendor pre raw \<noteq> None) lines of
             None \<Rightarrow> None
           | Some raw \<Rightarrow> line_vendor pre raw))"

subsection \<open>The environment of a probe\<close>

text \<open>
  What a call into the operating system or a library did: it raised, or it returned.
\<close>

datatype 'a call = Raises | Returns 'a

text \<open>
  \<^item> \<open>ping\<close>: the return code of \<^verbatim>\<open>subprocess.run(["ping", ...], timeout=3)\<close>;
  \<^item> \<open>connect_ex\<close>: the block \<^verbatim>\<open>socket.socket(); settimeout; connect_ex((ip, port)); close\<close>,
    \<open>Raises\<close> when any of the four calls raises;
  \<^item> \<open>gethostbyaddr\<close>: the name \<^verbatim>\<open>socket.gethostbyaddr(ip)[0]\<close>;
  \<^item> \<open>platform_system\<close>: \<^verbatim>\<open>platform.system()\<close>;
  \<^item> \<open>netbios_name\<close>, \<open>apple_device_name\<close>: what \<^verbatim>\<open>get_netbios_name_smbutil\<close> and
    \<^verbatim>\<open>get_apple_device_name\<close> hand back (a name or \<^verbatim>\<open>None\<close>);
  \<^item> \<open>arp_ip\<close>, \<open>arp_all\<close>: return code and standard output of \<^verbatim>\<open>arp -n ip\<close>
    (\<^verbatim>\<open>arp -a ip\<close> on Windows) and of \<^verbatim>\<open>arp -a\<close>;
  \<^item> \<open>mac_search\<close>: the text of the first match of the MAC pattern,
    \<^verbatim>\<open>re.search(mac_pattern, text).group(0)\<close>, \<open>None\<close> without a match;
  \<^item> \<open>oui_file\<close>: the lines of \<^verbatim>\<open>assets/oui_database.txt\<close>;
  \<^item> \<open>clock\<close>: \<^verbatim>\<open>time.time()\<close> when the record of an address is built;
  \<^item> \<open>hosts\<close>: \<^verbatim>\<open>[str(ip) for ip in ipaddress.IPv4Network(subnet, strict=False).hosts()]\<close>,
    \<open>Raises\<close> for a string that is no network;
  \<^item> \<open>future_raises\<close>: \<^verbatim>\<open>future.result(timeout=3)\<close> ran into its timeout for this address;
  \<^item> \<open>pool_raises\<close>: a statement at the top level of the iteration for the chunk that
    starts at this index raised (creating the \<^verbatim>\<open>ThreadPoolExecutor\<close>, submitting to it);
  \<^item> \<open>interrupt\<close>: \<^verbatim>\<open>check_for_interrupt()\<close> before the chunk that starts at this index;
  \<^item> \<open>store_clock\<close>: \<^verbatim>\<open>time.time()\<close> in \<^verbatim>\<open>update_known_devices\<close>.
\<close>

record env =
  ping :: "string \<Rightarrow> int call"
  connect_ex :: "string \<Rightarrow> nat \<Rightarrow> int call"
  gethostbyaddr :: "string \<Rightarrow> string call"
  platform_system :: string
  netbios_name :: "string \<Rightarrow> string option call"
  apple_device_name :: "string \<Rightarrow> string option call"
  arp_ip :: "string \<Rightarrow> (int \<times> string) call"
  arp_all :: "(int \<times> string) call"
  mac_search :: "string \<Rightarrow> string option"
  oui_file :: "string list option"
  clock :: "string \<Rightarrow> real"
  hosts :: "string \<Rightarrow> string list call"
  future_raises :: "string \<Rightarrow> bool"
  pool_raises :: "nat \<Rightarrow> bool"
  interrupt :: "nat \<Rightarrow> bool"
  store_clock :: real

text \<open>\<^verbatim>\<open>try: body  except Exception: pass\<close> around a body that may return early.\<close>

definition attempt :: "'a option call \<Rightarrow> 'a option" where
  "attempt body = (case body of Raises \<Rightarrow> None | Returns r \<Rightarrow> r)"

subsection \<open>Status prober\<close>

text \<open>\<^verbatim>\<open>ping_host\<close> (lines 417-429).\<close>

definition ping_host :: "env \<Rightarrow> string \<Rightarrow> bool" where
  "ping_host e ip = (case ping e ip of Raises \<Rightarrow> False | Returns returncode \<Rightarrow> returncode = 0)"

definition standby_ports :: "nat list" where
  "standby_ports = [80, 443, 22, 23, 3389, 5900]"

text \<open>The loop \<^verbatim>\<open>for port in standby_ports\<close> (lines 443-454).\<close>

fun standby_probe :: "env \<Rightarrow> string \<Rightarrow> nat list \<Rightarrow> string" where
  "standby_probe e ip [] = ''offline''"
| "standby_probe e ip (port # rest) =
     (case connect_ex e ip port of
        Raises \<Rightarrow> standby_probe e ip rest
      | Returns result \<Rightarrow> if result = 0 then ''standby'' else standby_probe e ip rest)"

text \<open>\<^verbatim>\<open>check_device_status\<close> (lines 431-456).\<close>

definition check_device_status :: "env \<Rightarrow> string \<Rightarrow> string" where
  "check_device_status e ip =
     (let is_pingable = ping_host e ip
      in if is_pingable then ''online'' else standby_probe e ip standby_ports)"

subsection \<open>MAC resolver: the neighbour cache\<close>

text \<open>The loop \<^verbatim>\<open>for line in output.split('\n')\<close> of the fallback (lines 537-545).\<close>

fun arp_lines :: "env \<Rightarrow> string \<Rightarrow> string list \<Rightarrow> string option" where
  "arp_lines e ip [] = None"
| "arp_lines e ip (line # rest) =
     (if py_in ip line then
        (case mac_search e line of
           Some m \<Rightarrow> Some (mac_of_match m)
         | None \<Rightarrow> arp_lines e ip rest)
      else arp_lines e ip rest)"

text \<open>\<^verbatim>\<open>get_mac_address\<close> (lines 506-549).\<close>

definition get_mac_address :: "env \<Rightarrow> string \<Rightarrow> string option" where
  "get_mac_address e ip =
     (case attempt
             (case arp_ip e ip of
                Raises \<Rightarrow> Raises
              | Returns (returncode, stdout) \<Rightarrow>
                  Returns (if returncode = 0 \<and> py_strip stdout \<noteq> [] then
                             (case mac_search e stdout of
                                Some m \<Rightarrow> Some (mac_of_match m)
                              | None \<Rightarrow> None)
                           else None)) of
        Some mac \<Rightarrow> Some mac
      | None \<Rightarrow>
          attempt
            (case arp_all e of
               Raises \<Rightarrow> Raises
             | Returns (returncode, output) \<Rightarrow>
                 Returns (if returncode = 0 \<and> py_in ip output
                          then arp_lines e ip (py_split CHR 0x0A output)
                          else None)))"

subsection \<open>Identity resolver\<close>

text \<open>\<^verbatim>\<open>ip.split('.')[-1]\<close>; \<open>py_split\<close> never yields the empty list.\<close>

definition last_octet :: "string \<Rightarrow> string" where
  "last_octet ip = last (py_split CHR ''.'' ip)"

text \<open>The table \<^verbatim>\<open>service_ports\<close> in its insertion order (lines 678-687).\<close>

definition service_ports :: "(nat \<times> string) list" where
  "service_ports =
     [(22, ''SSH''), (23, ''Telnet''), (80, ''HTTP''), (443, ''HTTPS''),
      (3389, ''RDP''), (5900, ''VNC''), (8080, ''HTTP-Alt''), (8443, ''HTTPS-Alt'')]"

text \<open>Method 1 (lines 650-655).\<close>

definition by_dns :: "env \<Rightarrow> string \<Rightarrow> string option" where
  "by_dns e ip =
     attempt (case gethostbyaddr e ip of
                Raises \<Rightarrow> Raises
              | Returns hostname \<Rightarrow>
                  Returns (if hostname \<noteq> [] \<and> hostname \<noteq> ip \<and> 2 < length hostname
                           then Some hostname else None))"

text \<open>Methods 2 and 3 (lines 658-673), on macOS only.\<close>

definition by_netbios :: "env \<Rightarrow> string \<Rightarrow> string option" where
  "by_netbios e ip =
     attempt (if platform_system e = ''Darwin'' then
                (case netbios_name e ip of
                   Raises \<Rightarrow> Raises
                 | Returns name \<Rightarrow>
                     Returns (case name of
                                None \<Rightarrow> None
                              | Some n \<Rightarrow> if n \<noteq> [] then Some n else None))
              else Returns None)"

definition by_mdns :: "env \<Rightarrow> string \<Rightarrow> string option" where
  "by_mdns e ip =
     attempt (if platform_system e = ''Darwin'' then
                (case apple_device_name e ip of
                   Raises \<Rightarrow> Raises
                 | Returns name \<Rightarrow>
                     Returns (case name of
                                None \<Rightarrow> None
                              | Some n \<Rightarrow> if n \<noteq> [] then Some n else None))
              else Returns None)"

text \<open>Method 4 (lines 676-700): the loop over \<^verbatim>\<open>service_ports.items()\<close>.\<close>

fun by_service :: "env \<Rightarrow> string \<Rightarrow> (nat \<times> string) list \<Rightarrow> string option" where
  "by_service e ip [] = None"
| "by_service e ip ((port, service) # rest) =
     (case connect_ex e ip port of
        Raises \<Rightarrow> by_service e ip rest
      | Returns result \<Rightarrow>
          if result = 0 then Some (service @ ''-'' @ last_octet ip)
          else by_service e ip rest)"

text \<open>Method 5 (lines 703-711).\<close>

definition by_vendor :: "env \<Rightarrow> string \<Rightarrow> string option" where
  "by_vendor e ip =
     (case get_mac_address e ip of
        None \<Rightarrow> None
      | Some mac \<Rightarrow>
          if mac \<noteq> [] then
            (case get_mac_vendor (oui_file e) mac of
               None \<Rightarrow> None
             | Some vendor \<Rightarrow>
                 if vendor \<noteq> [] then Some (vendor @ ''-'' @ last_octet ip) else None)
          else None)"

text \<open>\<^verbatim>\<open>get_device_identifier\<close> (lines 646-718).\<close>

definition get_device_identifier :: "env \<Rightarrow> string \<Rightarrow> string" where
  "get_device_identifier e ip =
     (case by_dns e ip of
        Some hostname \<Rightarrow> hostname
      | None \<Rightarrow>
     (case by_netbios e ip of
        Some name \<Rightarrow> name
      | None \<Rightarrow>
     (case by_mdns e ip of
        Some name \<Rightarrow> name
      | None \<Rightarrow>
     (case by_service e ip service_ports of
        Some label \<Rightarrow> label
      | None \<Rightarrow>
     (case by_vendor e ip of
        Some label \<Rightarrow> label
      | None \<Rightarrow> ''.'' @ last_octet ip)))))"

subsection \<open>Device records\<close>

text \<open>
  A device is a Python dictionary with string keys, built by the scanners or loaded from
  \<^verbatim>\<open>known_devices.json\<close>: a missing key and a key bound to \<^verbatim>\<open>None\<close> are different.
\<close>

datatype pyval = PNone | PBool bool | PNum real | PStr string

type_synonym dict = "string \<Rightarrow> pyval option"

text \<open>Truth value of an object, and \<^verbatim>\<open>==\<close> (where \<^verbatim>\<open>True == 1\<close>).\<close>

fun truthy :: "pyval \<Rightarrow> bool" where
  "truthy PNone = False"
| "truthy (PBool b) = b"
| "truthy (PNum x) = (x \<noteq> 0)"
| "truthy (PStr s) = (s \<noteq> [])"

fun py_eq :: "pyval \<Rightarrow> pyval \<Rightarrow> bool" where
  "py_eq (PBool b) (PNum x) = ((if b then 1 else 0) = x)"
| "py_eq (PNum x) (PBool b) = (x = (if b then 1 else 0))"
| "py_eq v w = (v = w)"

text \<open>\<^verbatim>\<open>d.get(k)\<close>, \<^verbatim>\<open>d.get(k, default)\<close> and \<^verbatim>\<open>d[k]\<close>, which raises \<^verbatim>\<open>KeyError\<close>.\<close>

definition dict_get :: "dict \<Rightarrow> string \<Rightarrow> pyval" where
  "dict_get d k = (case d k of None \<Rightarrow> PNone | Some v \<Rightarrow> v)"

definition dict_get_default :: "dict \<Rightarrow> string \<Rightarrow> pyval \<Rightarrow> pyval" where
  "dict_get_default d k dflt = (case d k of None \<Rightarrow> dflt | Some v \<Rightarrow> v)"

definition item :: "dict \<Rightarrow> string \<Rightarrow> pyval call" where
  "item d k = (case d k of None \<Rightarrow> Raises | Some v \<Rightarrow> Returns v)"

definition bind :: "'a call \<Rightarrow> ('a \<Rightarrow> 'b call) \<Rightarrow> 'b call" where
  "bind x f = (case x of Raises \<Rightarrow> Raises | Returns v \<Rightarrow> f v)"

subsection \<open>Probing one address\<close>

text \<open>
  The loop \<^verbatim>\<open>for known in known_devices: if known['ip'] == ip: ... break\<close> of \<^verbatim>\<open>scan_ip\<close>
  (lines 757-760 and 876-879).
\<close>

fun find_known :: "dict list \<Rightarrow> string \<Rightarrow> dict option call" where
  "find_known [] ip = Returns None"
| "find_known (known # rest) ip =
     bind (item known ''ip'')
       (\<lambda>v. if py_eq v (PStr ip) then Returns (Some known) else find_known rest ip)"

definition responsive :: "string \<Rightarrow> bool" where
  "responsive status = (status \<in> set [''online'', ''standby''])"

text \<open>
  \<^verbatim>\<open>scan_ip\<close>, the closure of \<^verbatim>\<open>scan_network_for_devices_live\<close> (lines 737-790) and of
  \<^verbatim>\<open>scan_network_for_devices\<close> (lines 856-914); the two bodies differ in progress
  callbacks only.  It reads \<^verbatim>\<open>known_devices\<close> while the main thread updates the records
  of other addresses in place; the record of \<open>ip\<close> itself is updated only from the
  result of this call, and \<^verbatim>\<open>'ip'\<close> is never changed by an update, so the call sees the
  list it was given.  An empty list stands for \<^verbatim>\<open>None\<close> as well.
\<close>

definition scan_ip :: "env \<Rightarrow> dict list \<Rightarrow> string \<Rightarrow> dict call" where
  "scan_ip e known_devices ip =
     (let status = check_device_status e ip;
          hostname = (if responsive status then Some (get_device_identifier e ip) else None);
          mac_address = (if responsive status then get_mac_address e ip else None)
      in
      bind (if known_devices \<noteq> [] then find_known known_devices ip else Returns None)
        (\<lambda>known_device.
      bind (if responsive status then
              (case hostname of
                 Some h \<Rightarrow>
                   if h \<noteq> [] then Returns (status, PStr h)
                   else (case known_device of
                           Some known \<Rightarrow> bind (item known ''hostname'') (\<lambda>v. Returns (status, v))
                         | None \<Rightarrow> Returns (status, PStr (''.'' @ last_octet ip)))
               | None \<Rightarrow>
                   (case known_device of
                      Some known \<Rightarrow> bind (item known ''hostname'') (\<lambda>v. Returns (status, v))
                    | None \<Rightarrow> Returns (status, PStr (''.'' @ last_octet ip))))
            else if known_devices = [] then Returns (''hidden'', PNone)
            else (case known_device of
                    Some known \<Rightarrow> bind (item known ''hostname'') (\<lambda>v. Returns (status, v))
                  | None \<Rightarrow> Returns (''hidden'', PNone)))
        (\<lambda>(status, display_hostname).
      bind (case mac_address of
              Some m \<Rightarrow>
                if m \<noteq> [] then Returns (PStr m)
                else (case known_device of
                        Some known \<Rightarrow> item known ''mac''
                      | None \<Rightarrow> Returns PNone)
            | None \<Rightarrow>
                (case known_device of
                   Some known \<Rightarrow> item known ''mac''
                 | None \<Rightarrow> Returns PNone))
        (\<lambda>mac.
      Returns
        [''ip'' \<mapsto> PStr ip,
         ''hostname'' \<mapsto> display_hostname,
         ''mac'' \<mapsto> mac,
         ''status'' \<mapsto> PStr status,
         ''pingable'' \<mapsto> PBool (status = ''online''),
         ''last_seen'' \<mapsto>
            (if responsive status then PNum (clock e ip)
             else (case known_device of
                     Some known \<Rightarrow> dict_get_default known ''last_seen'' (PNum 0)
                   | None \<Rightarrow> PNum 0))]))))"

text \<open>
  \<^verbatim>\<open>scan_single_ip\<close> of the command-line scanner (lines 3559-3588).  Nothing in its body
  raises, so the handler that returns \<^verbatim>\<open>None\<close> is never entered.
\<close>

definition scan_single_ip :: "env \<Rightarrow> string \<Rightarrow> dict option" where
  "scan_single_ip e ip =
     (let status = check_device_status e ip;
          hostname = (if responsive status then Some (get_device_identifier e ip) else None);
          mac_address = (if responsive status then get_mac_address e ip else None);
          display_hostname =
            (if responsive status then
               (case hostname of
                  Some h \<Rightarrow> if h \<noteq> [] then PStr h else PStr (''.'' @ last_octet ip)
                | None \<Rightarrow> PStr (''.'' @ last_octet ip))
             else PNone);
          status = (if responsive status then status else ''hidden'')
      in Some
        [''ip'' \<mapsto> PStr ip,
         ''hostname'' \<mapsto> display_hostname,
         ''mac'' \<mapsto> (case mac_address of Some m \<Rightarrow> PStr m | None \<Rightarrow> PNone),
         ''status'' \<mapsto> PStr status,
         ''pingable'' \<mapsto> PBool (status = ''online''),
         ''last_seen'' \<mapsto> (if responsive status then PNum (clock e ip) else PNum 0)])"

text \<open>
  The state machine of the specification: ping, then the ports, then the history of the
  address.
\<close>

definition spec_status :: "bool \<Rightarrow> bool \<Rightarrow> bool \<Rightarrow> string" where
  "spec_status ping_ok port_ok recorded =
     (if ping_ok then ''online''
      else if port_ok then ''standby''
      else if recorded then ''offline''
      else ''hidden'')"

definition port_open :: "env \<Rightarrow> string \<Rightarrow> bool" where
  "port_open e ip = (\<exists>port \<in> set standby_ports. connect_ex e ip port = Returns 0)"

definition recorded :: "dict list \<Rightarrow> string \<Rightarrow> bool" where
  "recorded known_devices ip = (\<exists>known \<in> set known_devices. known ''ip'' = Some (PStr ip))"

subsection \<open>Scan scheduler\<close>

record interface_info =
  interface :: string
  subnet :: string

definition chunk_size :: nat where
  "chunk_size = 255"

text \<open>
  \<^verbatim>\<open>range(0, total_ips, chunk_size)\<close> and \<^verbatim>\<open>host_ips[chunk_start:chunk_end]\<close> with
  \<^verbatim>\<open>chunk_end = min(chunk_start + chunk_size, total_ips)\<close>.
\<close>

definition chunk_starts :: "nat \<Rightarrow> nat list" where
  "chunk_starts total_ips =
     map (\<lambda>i. i * chunk_size) [0 ..< (total_ips + chunk_size - 1) div chunk_size]"

definition chunk_ips :: "string list \<Rightarrow> nat \<Rightarrow> string list" where
  "chunk_ips host_ips chunk_start =
     py_slice host_ips chunk_start (min (chunk_start + chunk_size) (length host_ips))"

text \<open>
  Lines 929-941 (and 806-818): look for a record with the address of \<open>device\<close>, update it
  in place (\<^verbatim>\<open>existing_device.update(device)\<close>) or append.
\<close>

fun upsert :: "dict list \<Rightarrow> dict \<Rightarrow> dict list call" where
  "upsert [] device = Returns [device]"
| "upsert (existing # rest) device =
     bind (item existing ''ip'') (\<lambda>v.
     bind (item device ''ip'') (\<lambda>w.
       if py_eq v w then Returns ((existing ++ device) # rest)
       else bind (upsert rest device) (\<lambda>r. Returns (existing # r))))"

text \<open>
  \<^verbatim>\<open>future.result(timeout=3)\<close> for the task of one address: the timeout, or what
  \<^verbatim>\<open>scan_ip\<close> did.
\<close>

definition future_result :: "env \<Rightarrow> dict list \<Rightarrow> string \<Rightarrow> dict call" where
  "future_result e known_devices ip =
     (if future_raises e ip then Raises else scan_ip e known_devices ip)"

text \<open>
  One turn of \<^verbatim>\<open>for future in device_futures\<close> in the batch scanner (lines 925-949):
  whatever raises inside is caught and the turn ends.
\<close>

definition collect :: "dict list \<Rightarrow> dict call \<Rightarrow> dict list" where
  "collect devices future =
     (case bind future (\<lambda>device.
           bind (item device ''status'') (\<lambda>status.
             if \<not> py_eq status (PStr ''hidden'') then upsert devices device
             else Returns devices)) of
        Raises \<Rightarrow> devices
      | Returns devices' \<Rightarrow> devices')"

text \<open>The loop over the chunks (lines 917-953).\<close>

fun scan_chunks ::
  "env \<Rightarrow> dict list \<Rightarrow> string list \<Rightarrow> nat list \<Rightarrow> dict list \<Rightarrow> dict list call" where
  "scan_chunks e known_devices host_ips [] devices = Returns devices"
| "scan_chunks e known_devices host_ips (chunk_start # rest) devices =
     (if pool_raises e chunk_start then Raises
      else scan_chunks e known_devices host_ips rest
             (foldl collect devices
                (map (future_result e known_devices) (chunk_ips host_ips chunk_start))))"

text \<open>\<^verbatim>\<open>scan_network_for_devices\<close> (lines 839-957).\<close>

definition scan_network_for_devices :: "env \<Rightarrow> interface_info \<Rightarrow> dict list \<Rightarrow> dict list" where
  "scan_network_for_devices e info known_devices =
     (case bind (hosts e (subnet info)) (\<lambda>host_ips.
           scan_chunks e known_devices host_ips (chunk_starts (length host_ips))
             (if known_devices \<noteq> [] then known_devices else [])) of
        Raises \<Rightarrow> []
      | Returns devices \<Rightarrow> devices)"

text \<open>
  The live scanner keeps the same list and, next to it, the devices it hands to
  \<^verbatim>\<open>live_callback\<close> (lines 801-828); an exception of the callback itself is caught on
  the spot.
\<close>

definition collect_live :: "dict list \<times> dict list \<Rightarrow> dict call \<Rightarrow> dict list \<times> dict list" where
  "collect_live state future =
     (case bind future (\<lambda>device.
           bind (item device ''status'') (\<lambda>status.
             if \<not> py_eq status (PStr ''hidden'') then
               bind (upsert (fst state) device) (\<lambda>devices'.
                 Returns (devices', snd state @ [device]))
             else Returns state)) of
        Raises \<Rightarrow> state
      | Returns state' \<Rightarrow> state')"

fun live_chunks ::
  "env \<Rightarrow> dict list \<Rightarrow> string list \<Rightarrow> nat list \<Rightarrow> dict list \<times> dict list \<Rightarrow>
     dict list call \<times> dict list" where
  "live_chunks e known_devices host_ips [] state = (Returns (fst state), snd state)"
| "live_chunks e known_devices host_ips (chunk_start # rest) state =
     (if pool_raises e chunk_start then (Raises, snd state)
      else live_chunks e known_devices host_ips rest
             (foldl collect_live state
                (map (future_result e known_devices) (chunk_ips host_ips chunk_start))))"

text \<open>
  \<^verbatim>\<open>scan_network_for_devices_live\<close> (lines 720-837): the returned list, and the devices
  delivered to the callback on the way.
\<close>

definition scan_network_for_devices_live ::
  "env \<Rightarrow> interface_info \<Rightarrow> dict list \<Rightarrow> dict list \<times> dict list" where
  "scan_network_for_devices_live e info known_devices =
     (case hosts e (subnet info) of
        Raises \<Rightarrow> ([], [])
      | Returns host_ips \<Rightarrow>
          (case live_chunks e known_devices host_ips (chunk_starts (length host_ips))
                  (if known_devices \<noteq> [] then known_devices else [], []) of
             (Raises, delivered) \<Rightarrow> ([], delivered)
           | (Returns devices, delivered) \<Rightarrow> (devices, delivered)))"

text \<open>The command-line scanner: one turn of its result loop (lines 3520-3528).\<close>

definition collect_cli :: "dict list \<Rightarrow> dict option call \<Rightarrow> dict list" where
  "collect_cli devices future =
     (case future of
        Raises \<Rightarrow> devices
      | Returns None \<Rightarrow> devices
      | Returns (Some device) \<Rightarrow>
          if device \<noteq> Map.empty then
            (case item device ''status'' of
               Raises \<Rightarrow> devices
             | Returns status \<Rightarrow>
                 if \<not> py_eq status (PStr ''hidden'') then devices @ [device] else devices)
          else devices)"

definition cli_future_result :: "env \<Rightarrow> string \<Rightarrow> dict option call" where
  "cli_future_result e ip =
     (if future_raises e ip then Raises else Returns (scan_single_ip e ip))"

fun cli_chunks :: "env \<Rightarrow> string list \<Rightarrow> nat list \<Rightarrow> dict list \<Rightarrow> dict list call" where
  "cli_chunks e host_ips [] devices = Returns devices"
| "cli_chunks e host_ips (chunk_start # rest) devices =
     (if pool_raises e chunk_start then Raises
      else if interrupt e chunk_start then Returns devices
      else cli_chunks e host_ips rest
             (foldl collect_cli devices
                (map (cli_future_result e) (chunk_ips host_ips chunk_start))))"

text \<open>
  \<^verbatim>\<open>scan_network_for_devices_with_progress\<close> (lines 3476-3545).  For a network without
  hosts the final progress bar divides by zero and the handler returns the empty list,
  which is also the list collected by then.
\<close>

definition scan_network_for_devices_with_progress :: "env \<Rightarrow> interface_info \<Rightarrow> dict list" where
  "scan_network_for_devices_with_progress e info =
     (case bind (hosts e (subnet info)) (\<lambda>host_ips.
           cli_chunks e host_ips (chunk_starts (length host_ips)) []) of
        Raises \<Rightarrow> []
      | Returns devices \<Rightarrow> devices)"

subsection \<open>The known-device store\<close>

text \<open>
  \<^verbatim>\<open>get_mac_vendor\<close> on a dictionary value: an object without \<^verbatim>\<open>split\<close> raises inside
  the function, whose handler returns \<^verbatim>\<open>None\<close>.
\<close>

definition vendor_of :: "env \<Rightarrow> pyval \<Rightarrow> string option" where
  "vendor_of e mac = (case mac of PStr m \<Rightarrow> get_mac_vendor (oui_file e) m | _ \<Rightarrow> None)"

text \<open>
  What \<^verbatim>\<open>update_known_devices\<close> stores for one device (lines 1152-1167): nothing for a
  hidden one.
\<close>

definition known_record :: "env \<Rightarrow> dict \<Rightarrow> dict option call" where
  "known_record e device =
     bind (item device ''status'') (\<lambda>status.
       if \<not> py_eq status (PStr ''hidden'') then
         bind (item device ''ip'') (\<lambda>ip.
         bind (item device ''hostname'') (\<lambda>hostname.
         bind (item device ''mac'') (\<lambda>mac.
           let known_device =
                 [''ip'' \<mapsto> ip,
                  ''hostname'' \<mapsto> hostname,
                  ''mac'' \<mapsto> mac,
                  ''last_seen'' \<mapsto> dict_get_default device ''last_seen'' (PNum (store_clock e)),
                  ''status'' \<mapsto> status]
           in Returns (Some
                (if truthy mac then
                   (case vendor_of e mac of
                      None \<Rightarrow> known_device
                    | Some vendor \<Rightarrow>
                        if vendor \<noteq> [] \<and> vendor \<noteq> ''Unknown''
                        then known_device(''vendor'' \<mapsto> PStr vendor)
                        else known_device)
                 else known_device)))))
       else Returns None)"

text \<open>
  \<^verbatim>\<open>update_known_devices\<close> (lines 1148-1170): the new list of the interface, and whether
  the loop came to its end (and the store was saved) or a \<^verbatim>\<open>KeyError\<close> left the list
  as far as it had been filled.
\<close>

fun store_devices :: "env \<Rightarrow> dict list \<Rightarrow> dict list \<Rightarrow> dict list \<times> bool" where
  "store_devices e [] stored = (stored, True)"
| "store_devices e (device # rest) stored =
     (case known_record e device of
        Raises \<Rightarrow> (stored, False)
      | Returns None \<Rightarrow> store_devices e rest stored
      | Returns (Some known_device) \<Rightarrow> store_devices e rest (stored @ [known_device]))"

definition update_known_devices :: "env \<Rightarrow> dict list \<Rightarrow> dict list \<times> bool" where
  "update_known_devices e devices = store_devices e devices []"

subsection \<open>Known-device merge\<close>

text \<open>The sub-network of an address (lines 1637-1645 and 1701-1708).\<close>

definition network_key_of :: "string \<Rightarrow> string \<Rightarrow> string" where
  "network_key_of interface_subnet device_ip =
     (if startswith device_ip ''192.168.0.'' then ''192.168.0.0/24''
      else if startswith device_ip ''134.124.230.'' then ''134.124.230.0/24''
      else if startswith device_ip ''134.124.231.'' then ''134.124.231.0/24''
      else interface_subnet)"

text \<open>The search for the stored record of an address (lines 1652-1656).\<close>

definition find_stored :: "dict list \<Rightarrow> pyval \<Rightarrow> dict option" where
  "find_stored known_devices device_ip =
     List.find (\<lambda>known. py_eq (dict_get known ''ip'') device_ip) known_devices"

text \<open>
  Lines 1659-1670: the copy of the scanned record takes \<^verbatim>\<open>hostname\<close>, \<^verbatim>\<open>mac\<close> and
  \<^verbatim>\<open>vendor\<close> from the stored record where its own value is empty.
\<close>

definition keep_stored :: "string \<Rightarrow> dict \<Rightarrow> dict \<Rightarrow> dict" where
  "keep_stored field stored_device merged_device =
     (if \<not> truthy (dict_get merged_device field) \<and> truthy (dict_get stored_device field)
      then merged_device(field \<mapsto> dict_get stored_device field)
      else merged_device)"

definition overlay :: "dict option \<Rightarrow> dict \<Rightarrow> dict" where
  "overlay stored_device device =
     (let merged_device = device
      in case stored_device of
           None \<Rightarrow> merged_device
         | Some stored \<Rightarrow>
             if stored \<noteq> Map.empty then
               (let merged_device = keep_stored ''hostname'' stored merged_device;
                    merged_device = keep_stored ''mac'' stored merged_device;
                    merged_device = keep_stored ''vendor'' stored merged_device
                in if truthy (dict_get stored ''last_seen'')
                   then merged_device(''stored_last_seen'' \<mapsto> dict_get stored ''last_seen'')
                   else merged_device)
             else merged_device)"

text \<open>Lines 1672-1685: the status of a device outside the primary sub-network.\<close>

definition validate_context :: "string \<Rightarrow> string \<Rightarrow> dict \<Rightarrow> dict" where
  "validate_context network_key interface_subnet merged_device =
     (if network_key \<noteq> interface_subnet then
        (if \<not> truthy (dict_get_default merged_device ''pingable'' (PBool False)) then
           merged_device(''status'' \<mapsto> PStr ''offline'',
                         ''network_context'' \<mapsto> PStr ''discovered_offline'')
         else merged_device(''network_context'' \<mapsto> PStr ''discovered_online''))
      else merged_device(''network_context'' \<mapsto> PStr ''primary''))"

text \<open>
  One turn of \<^verbatim>\<open>for device in devices\<close> (lines 1629-1687): nothing for a record without
  address, \<^verbatim>\<open>AttributeError\<close> for an address that is no string, else the sub-network
  and the merged record.
\<close>

definition merge_device :: "string \<Rightarrow> dict list \<Rightarrow> dict \<Rightarrow> (string \<times> dict) option call" where
  "merge_device interface_subnet known_devices device =
     (let device_ip = dict_get device ''ip''
      in if \<not> truthy device_ip then Returns None
         else (case device_ip of
                 PStr ip \<Rightarrow>
                   (let network_key = network_key_of interface_subnet ip;
                        stored_device = find_stored known_devices device_ip;
                        merged_device = overlay stored_device device;
                        merged_device = validate_context network_key interface_subnet merged_device
                    in Returns (Some (network_key, merged_device)))
               | _ \<Rightarrow> Raises))"

text \<open>
  \<^verbatim>\<open>network_groups\<close>, a dictionary in insertion order from sub-network to device list.
\<close>

type_synonym groups = "(string \<times> dict list) list"

definition group_get :: "groups \<Rightarrow> string \<Rightarrow> dict list" where
  "group_get network_groups network_key =
     (case map_of network_groups network_key of None \<Rightarrow> [] | Some ds \<Rightarrow> ds)"

definition group_append :: "string \<Rightarrow> dict \<Rightarrow> groups \<Rightarrow> groups" where
  "group_append network_key d network_groups =
     (if network_key \<in> fst ` set network_groups
      then map (\<lambda>(k, ds). if k = network_key then (k, ds @ [d]) else (k, ds)) network_groups
      else network_groups @ [(network_key, [d])])"

fun merge_scanned :: "string \<Rightarrow> dict list \<Rightarrow> dict list \<Rightarrow> groups \<Rightarrow> groups call" where
  "merge_scanned interface_subnet known_devices [] network_groups = Returns network_groups"
| "merge_scanned interface_subnet known_devices (device # rest) network_groups =
     bind (merge_device interface_subnet known_devices device) (\<lambda>r.
       merge_scanned interface_subnet known_devices rest
         (case r of
            None \<Rightarrow> network_groups
          | Some (network_key, merged_device) \<Rightarrow>
              group_append network_key merged_device network_groups))"

text \<open>\<^verbatim>\<open>any(d['ip'] == known_ip for d in ...)\<close> (line 1711).\<close>

fun any_ip :: "pyval \<Rightarrow> dict list \<Rightarrow> bool call" where
  "any_ip known_ip [] = Returns False"
| "any_ip known_ip (d # ds) =
     bind (item d ''ip'') (\<lambda>v. if py_eq v known_ip then Returns True else any_ip known_ip ds)"

text \<open>
  The loop over the stored records (lines 1691-1721): a record whose address the scan did
  not deliver is added as offline.
\<close>

fun add_offline :: "string \<Rightarrow> dict list \<Rightarrow> groups \<Rightarrow> groups call" where
  "add_offline interface_subnet [] network_groups = Returns network_groups"
| "add_offline interface_subnet (known # rest) network_groups =
     (let known_ip = dict_get known ''ip''
      in if \<not> truthy known_ip then add_offline interface_subnet rest network_groups
         else (case known_ip of
                 PStr ip \<Rightarrow>
                   (let network_key = network_key_of interface_subnet ip
                    in bind (any_ip known_ip (group_get network_groups network_key))
                         (\<lambda>already_found.
                            add_offline interface_subnet rest
                              (if \<not> already_found then
                                 group_append network_key
                                   (known(''status'' \<mapsto> PStr ''offline'',
                                          ''current_scan'' \<mapsto> PBool False))
                                   network_groups
                               else network_groups)))
               | _ \<Rightarrow> Raises))"

text \<open>
  The value of \<^verbatim>\<open>network_groups\<close> at line 1723 of \<^verbatim>\<open>update_tree_view\<close>, for an active
  interface with the scanned \<open>devices\<close> and the stored \<open>known_devices\<close>.
\<close>

definition network_groups_of :: "string \<Rightarrow> dict list \<Rightarrow> dict list \<Rightarrow> groups call" where
  "network_groups_of interface_subnet devices known_devices =
     bind (merge_scanned interface_subnet known_devices devices [])
          (add_offline interface_subnet known_devices)"

text \<open>
  For the merge of a list with itself: the sub-network of a record, and the record with
  the annotations of the merge (the stored time stamp, the network context, and the status
  forced to offline outside the primary sub-network).
\<close>

definition device_key :: "string \<Rightarrow> dict \<Rightarrow> string" where
  "device_key interface_subnet d =
     (case dict_get d ''ip'' of
        PStr ip \<Rightarrow> network_key_of interface_subnet ip
      | _ \<Rightarrow> interface_subnet)"

definition annotated :: "string \<Rightarrow> dict \<Rightarrow> dict" where
  "annotated interface_subnet d =
     validate_context (device_key interface_subnet d) interface_subnet
       (if truthy (dict_get d ''last_seen'')
        then d(''stored_last_seen'' \<mapsto> dict_get d ''last_seen'')
        else d)"

text \<open>A record with the status \<^verbatim>\<open>hidden\<close>.\<close>

definition is_hidden :: "dict \<Rightarrow> bool" where
  "is_hidden d = (d ''status'' = Some (PStr ''hidden''))"

text \<open>The first result of an ordered list of attempts.\<close>

fun first_success :: "string option list \<Rightarrow> string option" where
  "first_success [] = None"
| "first_success (None # rest) = first_success rest"
| "first_success (Some name # rest) = Some name"

subsection \<open>Example data\<close>

text \<open>
  An environment in which no host answers and every call that can raise does; and one in
  which the host \<^verbatim>\<open>192.168.0.7\<close> answers on port 80 only.
\<close>

definition silent_env :: env where
  "silent_env =
     \<lparr>ping = (\<lambda>ip. Returns 1),
      connect_ex = (\<lambda>ip port. Raises),
      gethostbyaddr = (\<lambda>ip. Raises),
      platform_system = ''Darwin'',
      netbios_name = (\<lambda>ip. Raises),
      apple_device_name = (\<lambda>ip. Raises),
      arp_ip = (\<lambda>ip. Raises),
      arp_all = Raises,
      mac_search = (\<lambda>text. None),
      oui_file = None,
      clock = (\<lambda>ip. 1700000000),
      hosts = (\<lambda>subnet. Raises),
      future_raises = (\<lambda>ip. False),
      pool_raises = (\<lambda>n. False),
      interrupt = (\<lambda>n. False),
      store_clock = 1700000000\<rparr>"

definition web_env :: env where
  "web_env =
     silent_env\<lparr>connect_ex :=
       (\<lambda>ip port. if ip = ''192.168.0.7'' \<and> port = 80 then Returns 0 else Returns 111)\<rparr>"

definition nbsp_oui :: "string list" where
  "nbsp_oui =
     [''AABBCC'' @ [CHR 0x09, CHR 0xC2, CHR 0xA0, CHR 0x09] @ ''Blank'' @ [CHR 0x0A],
      ''AABBCC'' @ [CHR 0x09] @ ''Acme Corp'' @ [CHR 0xC2, CHR 0xA0, CHR 0x0A]]"

definition acme_oui :: "string list" where
  "acme_oui =
     [''# OUI'' @ [CHR 0x0A],
      ''AABBCC'' @ [CHR 0x09] @ ''Acme Corp'' @ [CHR 0x0A],
      ''AABBCC'' @ [CHR 0x09] @ ''Other'' @ [CHR 0x0A]]"

definition nas_record :: dict where
  "nas_record =
     [''ip'' \<mapsto> PStr ''192.168.1.5'',
      ''hostname'' \<mapsto> PStr ''nas.local'',
      ''mac'' \<mapsto> PStr ''AA:BB:CC:DD:EE:FF'',
      ''vendor'' \<mapsto> PStr ''Synology'',
      ''last_seen'' \<mapsto> PNum 1600000000,
      ''status'' \<mapsto> PStr ''online'']"

definition fresh_probe :: dict where
  "fresh_probe =
     [''ip'' \<mapsto> PStr ''192.168.1.5'',
      ''hostname'' \<mapsto> PNone,
      ''mac'' \<mapsto> PNone,
      ''status'' \<mapsto> PStr ''offline'',
      ''pingable'' \<mapsto> PBool False,
      ''last_seen'' \<mapsto> PNum 0]"

definition camera_record :: dict where
  "camera_record =
     [''ip'' \<mapsto> PStr ''134.124.230.7'',
      ''hostname'' \<mapsto> PStr ''camera'',
      ''mac'' \<mapsto> PNone,
      ''status'' \<mapsto> PStr ''online'',
      ''last_seen'' \<mapsto> PNum 1600000000]"

text \<open>
  An interface; an environment with two hosts that do not answer; the same with a worker
  pool that cannot be created; a network without hosts; and the record of a host that was
  never seen and does not answer.
\<close>

definition lan :: interface_info where
  "lan = \<lparr>interface = ''en0'', subnet = ''192.168.1.0/24''\<rparr>"

definition quiet_env :: env where
  "quiet_env = silent_env\<lparr>hosts := (\<lambda>subnet. Returns [''192.168.1.5'', ''192.168.1.6''])\<rparr>"

definition broken_pool_env :: env where
  "broken_pool_env = quiet_env\<lparr>pool_raises := (\<lambda>chunk_start. True)\<rparr>"

definition empty_net_env :: env where
  "empty_net_env = silent_env\<lparr>hosts := (\<lambda>subnet. Returns [])\<rparr>"

definition hidden_probe :: dict where
  "hidden_probe =
     [''ip'' \<mapsto> PStr ''192.168.1.6'',
      ''hostname'' \<mapsto> PNone,
      ''mac'' \<mapsto> PNone,
      ''status'' \<mapsto> PStr ''hidden'',
      ''pingable'' \<mapsto> PBool False,
      ''last_seen'' \<mapsto> PNum 0]"

section \<open>Properties\<close>

subsection \<open>String operations\<close>

lemma py_split_nonempty: "py_split sep s \<noteq> []"
  by (induction s) (simp_all split: list.split)

lemma py_replace_delete: "py_replace c [] s = filter (\<lambda>x. x \<noteq> c) s"
  by (induction s) (simp_all add: py_replace_def)

lemma py_eq_str: "py_eq v (PStr s) = (v = PStr s)"
  by (cases v) simp_all

lemma bind_Returns: "bind x f = Returns y \<Longrightarrow> \<exists>v. x = Returns v \<and> f v = Returns y"
  by (cases x) (simp_all add: bind_def)

subsection \<open>The padding rule\<close>

lemma clean_mac_eq: "py_replace CHR ''-'' [] (py_replace CHR '':'' [] s) = strip_separators s"
  by (simp add: py_replace_delete strip_separators_def conj_commute)

lemma length_twelve: "length (twelve c) = 12"
  by (simp add: twelve_def)

lemma list12:
  assumes "length m = 12"
  obtains a b c d e f g h i j k l where "m = [a, b, c, d, e, f, g, h, i, j, k, l]"
proof -
  from assms have "\<exists>a b c d e f g h i j k l. m = [a, b, c, d, e, f, g, h, i, j, k, l]"
    by (auto simp add: numeral_eq_Suc length_Suc_conv)
  then show thesis using that by blast
qed

lemma colon_pairs_12:
  "colon_pairs [a, b, c, d, e, f, g, h, i, j, k, l] =
     [a, b, CHR '':'', c, d, CHR '':'', e, f, CHR '':'', g, h, CHR '':'', i, j, CHR '':'', k, l]"
  by (simp add: colon_pairs_def py_slice_def)

lemma strip_pair_colon:
  "strip_separators (x # y # CHR '':'' # r) = strip_separators [x, y] @ strip_separators r"
  by (simp add: strip_separators_def)

lemma strip_pair:
  "strip_separators (x # y # r) = strip_separators [x, y] @ strip_separators r"
  by (simp add: strip_separators_def)

lemma strip_colon_pairs:
  assumes "length m = 12"
  shows "strip_separators (colon_pairs m) = strip_separators m"
proof -
  from assms obtain a b c d e f g h i j k l where m: "m = [a, b, c, d, e, f, g, h, i, j, k, l]"
    by (rule list12)
  have "strip_separators (colon_pairs m) =
        strip_separators [a, b] @ strip_separators [c, d] @ strip_separators [e, f] @
        strip_separators [g, h] @ strip_separators [i, j] @ strip_separators [k, l]"
    unfolding m colon_pairs_12 strip_pair_colon ..
  also have "\<dots> = strip_separators m"
    unfolding m
    by (simp only: strip_pair [of a b "[c, d, e, f, g, h, i, j, k, l]"]
        strip_pair [of c d "[e, f, g, h, i, j, k, l]"] strip_pair [of e f "[g, h, i, j, k, l]"]
        strip_pair [of g h "[i, j, k, l]"] strip_pair [of i j "[k, l]"])
  finally show ?thesis .
qed

lemma length_colon_pairs: "length m = 12 \<Longrightarrow> length (colon_pairs m) = 17"
  by (erule list12) (simp only: colon_pairs_12, simp)

lemma strip_fixed:
  "\<forall>c \<in> set s. c \<noteq> CHR '':'' \<and> c \<noteq> CHR ''-'' \<Longrightarrow> strip_separators s = s"
  by (simp add: strip_separators_def)

lemma strip_twelve: "strip_separators (twelve (strip_separators s)) = twelve (strip_separators s)"
proof (rule strip_fixed, rule ballI)
  fix c assume "c \<in> set (twelve (strip_separators s))"
  then have "c = CHR ''0'' \<or> c \<in> set (strip_separators s)"
    by (auto simp add: twelve_def split: if_splits dest: in_set_takeD)
  then show "c \<noteq> CHR '':'' \<and> c \<noteq> CHR ''-''"
    by (auto simp add: strip_separators_def)
qed

lemma pad_mac_address_eq:
  "mac \<noteq> [] \<Longrightarrow> pad_mac_address mac = colon_pairs (twelve (strip_separators mac))"
  by (simp add: pad_mac_address_def clean_mac_eq Let_def twelve_def py_slice_def)

lemma pad_examples:
  "pad_mac_address ''0:3e:e1:b7:57:54'' = ''00:3e:e1:b7:57:54''"
  "pad_mac_address ''AA:BB:CC:DD:EE:FF'' = ''AA:BB:CC:DD:EE:FF''"
  "pad_mac_address ''AA:BB:CC:DD:EE:FF:1'' = ''AA:BB:CC:DD:EE:FF''"
  by (simp_all add: pad_mac_address_def py_replace_def colon_pairs_def py_slice_def)

lemma mac_of_match_example: "mac_of_match ''0:3e:e1:b7:57:54'' = ''00:3E:E1:B7:57:54''"
  by (simp add: mac_of_match_def py_upper_def upper_char_def pad_mac_address_def py_replace_def
      colon_pairs_def py_slice_def)

text \<open>
  C1, as the code has it.  Applied to a non-empty string, \<^verbatim>\<open>pad_mac_address\<close> strips the
  separators \<^verbatim>\<open>:\<close> and \<^verbatim>\<open>-\<close> and formats twelve characters in colon-separated pairs: the
  stripped text itself when it has twelve characters, the text left-padded with \<^verbatim>\<open>0\<close>
  when it has fewer, its first twelve characters when it has more.  The result has 17
  characters and stripping it gives the twelve characters back.  The function keeps the
  case of the letters and returns the empty string as it is: \<^verbatim>\<open>0:3e:e1:b7:57:54\<close>
  becomes \<^verbatim>\<open>00:3e:e1:b7:57:54\<close>, and \<^verbatim>\<open>00:3E:E1:B7:57:54\<close> is what \<^verbatim>\<open>get_mac_address\<close>
  returns, which puts the match in upper case before it pads.  \<^verbatim>\<open>AA:BB:CC:DD:EE:FF\<close> is
  unchanged and thirteen characters are cut to twelve.
\<close>

theorem pad_mac_address_rule:
  "(mac \<noteq> [] \<longrightarrow>
      pad_mac_address mac = colon_pairs (twelve (strip_separators mac)) \<and>
      length (pad_mac_address mac) = 17 \<and>
      strip_separators (pad_mac_address mac) = twelve (strip_separators mac)) \<and>
   pad_mac_address [] = [] \<and>
   pad_mac_address ''0:3e:e1:b7:57:54'' = ''00:3e:e1:b7:57:54'' \<and>
   mac_of_match ''0:3e:e1:b7:57:54'' = ''00:3E:E1:B7:57:54'' \<and>
   pad_mac_address ''AA:BB:CC:DD:EE:FF'' = ''AA:BB:CC:DD:EE:FF'' \<and>
   pad_mac_address ''AA:BB:CC:DD:EE:FF:1'' = ''AA:BB:CC:DD:EE:FF''"
proof -
  have "strip_separators (pad_mac_address mac) = twelve (strip_separators mac)" if "mac \<noteq> []"
  proof -
    have "strip_separators (pad_mac_address mac) =
          strip_separators (twelve (strip_separators mac))"
      using that by (simp add: pad_mac_address_eq strip_colon_pairs length_twelve)
    then show ?thesis by (simp only: strip_twelve)
  qed
  moreover have "length (pad_mac_address mac) = 17" if "mac \<noteq> []"
    using that by (simp add: pad_mac_address_eq length_colon_pairs length_twelve)
  moreover have "pad_mac_address [] = []"
    by (simp add: pad_mac_address_def)
  ultimately show ?thesis
    by (simp add: pad_mac_address_eq pad_examples mac_of_match_example)
qed

text \<open>
  Witness for C1: the rule at the address \<^verbatim>\<open>0-3E\<close>, which has three characters
  besides its separator and is padded with nine zeros.
\<close>

theorem pad_mac_address_rule_witness:
  "''0-3E'' \<noteq> [] \<and> pad_mac_address ''0-3E'' = ''00:00:00:00:00:3E'' \<and>
   length (pad_mac_address ''0-3E'') = 17 \<and>
   strip_separators (pad_mac_address ''0-3E'') = ''00000000003E''"
  using pad_mac_address_rule [of "''0-3E''"]
  by (simp add: twelve_def strip_separators_def colon_pairs_def py_slice_def numeral_eq_Suc)

text \<open>
  Counterexample to C1 as stated: the padding function does not change the case of the
  letters, so the address of the specification comes out in lower case.
\<close>

theorem pad_mac_address_case_counterexample:
  "pad_mac_address ''0:3e:e1:b7:57:54'' \<noteq> ''00:3E:E1:B7:57:54''"
  by (simp add: pad_mac_address_def py_replace_def colon_pairs_def py_slice_def)

subsection \<open>Vendor lookup\<close>

lemma oui_search_find: "oui_search pre lines = database_vendor (Some lines) pre"
  by (induction lines) (simp_all add: database_vendor_def line_vendor_def Let_def)

lemma get_mac_vendor_eq:
  assumes "mac \<noteq> []" and "3 \<le> length (py_split CHR '':'' mac)"
  shows "get_mac_vendor db mac =
           (case database_vendor db (oui_hex_prefix mac) of
              Some vendor \<Rightarrow> Some vendor
            | None \<Rightarrow> map_of common_vendors (oui_colon_prefix mac))"
proof (cases db)
  case None
  with assms show ?thesis
    by (simp add: get_mac_vendor_def database_vendor_def oui_colon_prefix_def Let_def)
next
  case (Some lines)
  with assms show ?thesis
    by (simp add: get_mac_vendor_def oui_search_find oui_hex_prefix_def oui_colon_prefix_def
        py_replace_delete Let_def split: option.split)
qed

text \<open>
  C5, as the code has it.  For an address with at least three colon-separated groups the
  lookup returns the vendor field of the first line of the OUI file that contains the
  prefix (and has a non-blank second tab-separated field); without such a line it returns
  the entry of the hardcoded table for the colon form of the prefix; and when both fail
  it returns \<^verbatim>\<open>None\<close>, as it does for an address with fewer than three groups.
\<close>

theorem get_mac_vendor_lookup:
  "(mac \<noteq> [] \<and> 3 \<le> length (py_split CHR '':'' mac) \<longrightarrow>
      get_mac_vendor db mac =
        (case database_vendor db (oui_hex_prefix mac) of
           Some vendor \<Rightarrow> Some vendor
         | None \<Rightarrow> map_of common_vendors (oui_colon_prefix mac)) \<and>
      (database_vendor db (oui_hex_prefix mac) = None \<and>
       map_of common_vendors (oui_colon_prefix mac) = None \<longrightarrow>
         get_mac_vendor db mac = None)) \<and>
   (mac = [] \<or> length (py_split CHR '':'' mac) < 3 \<longrightarrow> get_mac_vendor db mac = None)"
proof -
  have "get_mac_vendor db mac = None" if "mac = [] \<or> length (py_split CHR '':'' mac) < 3"
    using that by (auto simp add: get_mac_vendor_def)
  then show ?thesis
    by (auto simp add: get_mac_vendor_eq)
qed

lemma vendor_examples:
  "database_vendor (Some acme_oui) ''AABBCC'' = Some ''Acme Corp''"
  "database_vendor (Some acme_oui) ''525400'' = None"
  "database_vendor (Some acme_oui) ''123456'' = None"
  "database_vendor (Some nbsp_oui) ''AABBCC'' = Some ''Acme Corp''"
  "oui_hex_prefix ''aa:bb:cc:dd:ee:ff'' = ''AABBCC''"
  "oui_hex_prefix ''52:54:00:12:34:56'' = ''525400''"
  "oui_hex_prefix ''12:34:56:78:9A:BC'' = ''123456''"
  "oui_colon_prefix ''52:54:00:12:34:56'' = ''52:54:00''"
  "oui_colon_prefix ''12:34:56:78:9A:BC'' = ''12:34:56''"
  "map_of common_vendors ''52:54:00'' = Some ''QEMU''"
  "map_of common_vendors ''12:34:56'' = None"
  "length (py_split CHR '':'' ''aa:bb:cc:dd:ee:ff'') = 6"
  "length (py_split CHR '':'' ''52:54:00:12:34:56'') = 6"
  "length (py_split CHR '':'' ''12:34:56:78:9A:BC'') = 6"
  "length (py_split CHR '':'' ''aa:bb'') = 2"
  by code_simp+

text \<open>
  Witness for C5: an address found in the file, one found in the table only, one found
  nowhere, one that is too short, and a file whose first matching line has a vendor field
  of one no-break space, which Python strips to nothing, before a line whose vendor ends
  in a no-break space.
\<close>

theorem get_mac_vendor_lookup_witness:
  "3 \<le> length (py_split CHR '':'' ''aa:bb:cc:dd:ee:ff'') \<and>
   oui_hex_prefix ''aa:bb:cc:dd:ee:ff'' = ''AABBCC'' \<and>
   get_mac_vendor (Some acme_oui) ''aa:bb:cc:dd:ee:ff'' = Some ''Acme Corp'' \<and>
   get_mac_vendor (Some acme_oui) ''52:54:00:12:34:56'' = Some ''QEMU'' \<and>
   get_mac_vendor (Some acme_oui) ''12:34:56:78:9A:BC'' = None \<and>
   get_mac_vendor (Some acme_oui) ''aa:bb'' = None \<and>
   get_mac_vendor (Some nbsp_oui) ''aa:bb:cc:dd:ee:ff'' = Some ''Acme Corp''"
  using get_mac_vendor_lookup [of "''aa:bb:cc:dd:ee:ff''" "Some acme_oui"]
    get_mac_vendor_lookup [of "''52:54:00:12:34:56''" "Some acme_oui"]
    get_mac_vendor_lookup [of "''12:34:56:78:9A:BC''" "Some acme_oui"]
    get_mac_vendor_lookup [of "''aa:bb''" "Some acme_oui"]
    get_mac_vendor_lookup [of "''aa:bb:cc:dd:ee:ff''" "Some nbsp_oui"]
  by (simp add: vendor_examples)

text \<open>
  Counterexample to C5 as stated: with no OUI file and an address outside the table the
  lookup returns \<^verbatim>\<open>None\<close>, not the string \<^verbatim>\<open>unknown\<close>.
\<close>

theorem get_mac_vendor_unknown_counterexample:
  "get_mac_vendor None ''AA:BB:CC:DD:EE:FF'' = None \<and>
   get_mac_vendor None ''AA:BB:CC:DD:EE:FF'' \<noteq> Some ''unknown''"
  by (simp add: get_mac_vendor_def common_vendors_def py_upper_def upper_char_def)

subsection \<open>Status prober\<close>

lemma standby_probe_eq:
  "standby_probe e ip ports =
     (if \<exists>port \<in> set ports. connect_ex e ip port = Returns 0 then ''standby'' else ''offline'')"
  by (induction ports) (auto split: call.splits)

lemma check_device_status_eq:
  "check_device_status e ip = spec_status (ping_host e ip) (port_open e ip) True"
  by (simp add: check_device_status_def spec_status_def port_open_def standby_probe_eq)

lemma responsive_spec: "responsive (spec_status a b True) = (a \<or> b)"
  by (simp add: responsive_def spec_status_def)

lemma find_known_Some:
  "find_known known ip = Returns (Some k) \<Longrightarrow> k \<in> set known \<and> k ''ip'' = Some (PStr ip)"
  by (induction known) (auto simp add: bind_def item_def py_eq_str split: option.splits if_splits)

lemma find_known_None:
  "find_known known ip = Returns None \<Longrightarrow> \<forall>k \<in> set known. k ''ip'' \<noteq> Some (PStr ip)"
  by (induction known) (auto simp add: bind_def item_def py_eq_str split: option.splits if_splits)

lemma find_known_recorded:
  "find_known known ip = Returns r \<Longrightarrow> (r \<noteq> None) = recorded known ip"
  by (cases r) (auto simp add: recorded_def dest: find_known_Some find_known_None)

lemma find_known_total:
  "\<forall>k \<in> set known. k ''ip'' \<noteq> None \<Longrightarrow> \<exists>r. find_known known ip = Returns r"
  by (induction known) (auto simp add: bind_def item_def)

lemma scan_ip_status:
  assumes "scan_ip e known ip = Returns d"
  shows "d ''status'' =
           Some (PStr (spec_status (ping_host e ip) (port_open e ip) (recorded known ip)))"
proof -
  let ?st = "check_device_status e ip"
  from assms obtain kd
    where kd: "(if known \<noteq> [] then find_known known ip else Returns None) = Returns kd"
    unfolding scan_ip_def Let_def by (auto dest!: bind_Returns)
  have rec: "(kd \<noteq> None) = recorded known ip"
  proof (cases "known = []")
    case True
    with kd show ?thesis by (simp add: recorded_def)
  next
    case False
    with kd have "find_known known ip = Returns kd" by simp
    then show ?thesis by (rule find_known_recorded)
  qed
  show ?thesis
  proof (cases "ping_host e ip \<or> port_open e ip")
    case True
    then have r: "responsive ?st"
      by (simp add: check_device_status_eq responsive_spec)
    from assms kd r have "d ''status'' = Some (PStr ?st)"
      unfolding scan_ip_def Let_def
      by (auto simp add: bind_def split: call.splits option.splits if_splits)
    with True show ?thesis
      by (auto simp add: check_device_status_eq spec_status_def)
  next
    case False
    then have r: "\<not> responsive ?st"
      by (simp add: check_device_status_eq responsive_spec)
    from False have st: "?st = ''offline''"
      by (simp add: check_device_status_eq spec_status_def)
    from assms kd r st rec
    have "d ''status'' = Some (PStr (if recorded known ip then ''offline'' else ''hidden''))"
      unfolding scan_ip_def Let_def
      by (auto simp add: bind_def recorded_def split: call.splits option.splits if_splits)
    with False show ?thesis
      by (simp add: spec_status_def)
  qed
qed

lemma scan_ip_total:
  assumes "\<forall>k \<in> set known. k ''ip'' \<noteq> None \<and> k ''hostname'' \<noteq> None \<and> k ''mac'' \<noteq> None"
  shows "\<exists>d. scan_ip e known ip = Returns d"
proof -
  from assms obtain r where r: "find_known known ip = Returns r"
    using find_known_total [of known ip] by auto
  have k: "(\<exists>h. item k ''hostname'' = Returns h) \<and> (\<exists>m. item k ''mac'' = Returns m)"
    if "r = Some k" for k
  proof -
    from r that have "k \<in> set known" by (auto dest: find_known_Some)
    with assms show ?thesis by (auto simp add: item_def)
  qed
  show ?thesis
    unfolding scan_ip_def Let_def using r k
    by (cases r) (auto simp add: bind_def split: option.splits)
qed

lemma scan_single_ip_status:
  "map_option (\<lambda>d. d ''status'') (scan_single_ip e ip) =
     Some (Some (PStr (spec_status (ping_host e ip) (port_open e ip) False)))"
proof (cases "ping_host e ip \<or> port_open e ip")
  case True
  then have "responsive (check_device_status e ip)"
    by (simp add: check_device_status_eq responsive_spec)
  with True show ?thesis
    by (auto simp add: scan_single_ip_def Let_def check_device_status_eq spec_status_def)
next
  case False
  then have "\<not> responsive (check_device_status e ip)"
    by (simp add: check_device_status_eq responsive_spec)
  with False show ?thesis
    by (simp add: scan_single_ip_def Let_def spec_status_def)
qed

text \<open>
  C3, as the code has it.  The record that \<^verbatim>\<open>scan_ip\<close> of the batch and live scanners
  returns has the status of the state machine: online after a successful ping, else
  standby when one of the ports 80, 443, 22, 23, 3389, 5900 accepts a connection, else
  offline when the list of known devices of the interface holds a record of the address
  and hidden when it holds none; and \<^verbatim>\<open>scan_ip\<close> returns whenever every known record has
  the keys it reads.  \<^verbatim>\<open>scan_single_ip\<close> of the command-line scanner consults no store:
  its unresponsive hosts are hidden, recorded before or not.
\<close>

theorem status_state_machine:
  "(scan_ip e known ip = Returns d \<longrightarrow>
      d ''status'' =
        Some (PStr (spec_status (ping_host e ip) (port_open e ip) (recorded known ip)))) \<and>
   ((\<forall>k \<in> set known. k ''ip'' \<noteq> None \<and> k ''hostname'' \<noteq> None \<and> k ''mac'' \<noteq> None) \<longrightarrow>
      (\<exists>d'. scan_ip e known ip = Returns d')) \<and>
   map_option (\<lambda>d. d ''status'') (scan_single_ip e ip) =
     Some (Some (PStr (spec_status (ping_host e ip) (port_open e ip) False)))"
  using scan_ip_status [of e known ip d] scan_ip_total [of known e ip]
    scan_single_ip_status [of e ip]
  by blast

text \<open>
  Witness for C3: the stored host \<^verbatim>\<open>192.168.1.5\<close> in an environment where nothing
  answers is offline for \<^verbatim>\<open>scan_ip\<close> and hidden for \<^verbatim>\<open>scan_single_ip\<close>.
\<close>

theorem status_state_machine_witness:
  "recorded [nas_record] ''192.168.1.5'' \<and>
   \<not> ping_host silent_env ''192.168.1.5'' \<and>
   \<not> port_open silent_env ''192.168.1.5'' \<and>
   (\<exists>d. scan_ip silent_env [nas_record] ''192.168.1.5'' = Returns d \<and>
        d ''status'' = Some (PStr ''offline'')) \<and>
   map_option (\<lambda>d. d ''status'') (scan_single_ip silent_env ''192.168.1.5'') =
     Some (Some (PStr ''hidden''))"
proof -
  have keys: "\<forall>k \<in> set [nas_record]. k ''ip'' \<noteq> None \<and> k ''hostname'' \<noteq> None \<and> k ''mac'' \<noteq> None"
    by (simp add: nas_record_def)
  have facts: "recorded [nas_record] ''192.168.1.5''" "\<not> ping_host silent_env ''192.168.1.5''"
    "\<not> port_open silent_env ''192.168.1.5''"
    by (simp_all add: recorded_def nas_record_def ping_host_def port_open_def silent_env_def)
  from keys status_state_machine [of silent_env "[nas_record]" "''192.168.1.5''"]
  obtain d where d: "scan_ip silent_env [nas_record] ''192.168.1.5'' = Returns d"
    by blast
  with status_state_machine [of silent_env "[nas_record]" "''192.168.1.5''" d] facts
  have "d ''status'' = Some (PStr ''offline'')"
    by (simp add: spec_status_def)
  moreover from status_state_machine [of silent_env "[nas_record]" "''192.168.1.5''" d] facts
  have "map_option (\<lambda>d. d ''status'') (scan_single_ip silent_env ''192.168.1.5'') =
          Some (Some (PStr ''hidden''))"
    by (simp add: spec_status_def)
  ultimately show ?thesis
    using d facts by blast
qed

text \<open>
  Counterexample to C3 as stated: the address has a record in the store and answers
  neither ping nor ports, so the state machine says offline, and the prober of the
  command-line scanner says hidden.
\<close>

theorem cli_recorded_host_hidden_counterexample:
  "recorded [nas_record] ''192.168.1.5'' \<and>
   spec_status (ping_host silent_env ''192.168.1.5'') (port_open silent_env ''192.168.1.5'')
     (recorded [nas_record] ''192.168.1.5'') = ''offline'' \<and>
   map_option (\<lambda>d. d ''status'') (scan_single_ip silent_env ''192.168.1.5'') =
     Some (Some (PStr ''hidden''))"
  by (simp add: recorded_def nas_record_def spec_status_def ping_host_def port_open_def
      silent_env_def standby_ports_def scan_single_ip_def check_device_status_def
      responsive_def)

subsection \<open>Identity resolver\<close>

lemma py_split_append: "py_split sep (a @ sep # b) = py_split sep a @ py_split sep b"
proof (induction a)
  case Nil
  show ?case by simp
next
  case (Cons c a)
  then show ?case
    using py_split_nonempty [of sep a] by (cases "py_split sep a") simp_all
qed

lemma py_split_without: "sep \<notin> set b \<Longrightarrow> py_split sep b = [b]"
  by (induction b) auto

lemma last_octet_eq: "CHR ''.'' \<notin> set b \<Longrightarrow> last_octet (a @ ''.'' @ b) = b"
  by (simp add: last_octet_def py_split_append py_split_without)

lemma by_service_find:
  "by_service e ip ports =
     (case List.find (\<lambda>(port, service). connect_ex e ip port = Returns 0) ports of
        None \<Rightarrow> None
      | Some (port, service) \<Rightarrow> Some (service @ ''-'' @ last_octet ip))"
  by (induction ports) (auto split: call.splits)

lemma by_service_raises:
  "\<forall>port. connect_ex e ip port = Raises \<Longrightarrow> by_service e ip ports = None"
  by (induction ports) auto

lemma get_mac_address_raises:
  "arp_ip e ip = Raises \<Longrightarrow> arp_all e = Raises \<Longrightarrow> get_mac_address e ip = None"
  by (simp add: get_mac_address_def attempt_def)

lemma chain_eq:
  "get_device_identifier e ip =
     (case first_success
             [by_dns e ip, by_netbios e ip, by_mdns e ip, by_service e ip service_ports,
              by_vendor e ip] of
        Some name \<Rightarrow> name
      | None \<Rightarrow> ''.'' @ last_octet ip)"
  by (simp add: get_device_identifier_def split: option.split)

lemma chain_all_raise:
  assumes "gethostbyaddr e ip = Raises" "netbios_name e ip = Raises"
    "apple_device_name e ip = Raises" "\<forall>port. connect_ex e ip port = Raises"
    "arp_ip e ip = Raises" "arp_all e = Raises"
  shows "get_device_identifier e ip = ''.'' @ last_octet ip"
  using assms
  by (simp add: get_device_identifier_def by_dns_def by_netbios_def by_mdns_def by_vendor_def
      attempt_def by_service_raises get_mac_address_raises)

text \<open>
  C7.  The identifier of an address is the first result of the ordered chain reverse DNS
  (a name other than the address and longer than two characters), NetBIOS name, mDNS
  name (both asked on macOS only), label of the first open port of the service table,
  vendor of the MAC address; each step that raises counts as no result; and without any
  result, also when every call raises, the identifier is a dot and the text after the
  last dot of the address.  The function has a value for every environment: it never
  raises.
\<close>

theorem get_device_identifier_chain:
  "get_device_identifier e ip =
     (case first_success
             [by_dns e ip, by_netbios e ip, by_mdns e ip, by_service e ip service_ports,
              by_vendor e ip] of
        Some name \<Rightarrow> name
      | None \<Rightarrow> ''.'' @ last_octet ip) \<and>
   by_dns e ip =
     (case gethostbyaddr e ip of
        Raises \<Rightarrow> None
      | Returns h \<Rightarrow> if h \<noteq> ip \<and> 2 < length h then Some h else None) \<and>
   by_netbios e ip =
     (if platform_system e = ''Darwin'' then
        (case netbios_name e ip of
           Raises \<Rightarrow> None
         | Returns None \<Rightarrow> None
         | Returns (Some n) \<Rightarrow> if n \<noteq> [] then Some n else None)
      else None) \<and>
   by_mdns e ip =
     (if platform_system e = ''Darwin'' then
        (case apple_device_name e ip of
           Raises \<Rightarrow> None
         | Returns None \<Rightarrow> None
         | Returns (Some n) \<Rightarrow> if n \<noteq> [] then Some n else None)
      else None) \<and>
   by_service e ip service_ports =
     (case List.find (\<lambda>(port, service). connect_ex e ip port = Returns 0) service_ports of
        None \<Rightarrow> None
      | Some (port, service) \<Rightarrow> Some (service @ ''-'' @ last_octet ip)) \<and>
   by_vendor e ip =
     (case get_mac_address e ip of
        None \<Rightarrow> None
      | Some mac \<Rightarrow>
          (case get_mac_vendor (oui_file e) mac of
             None \<Rightarrow> None
           | Some vendor \<Rightarrow>
               if mac \<noteq> [] \<and> vendor \<noteq> [] then Some (vendor @ ''-'' @ last_octet ip)
               else None)) \<and>
   (gethostbyaddr e ip = Raises \<and> netbios_name e ip = Raises \<and>
    apple_device_name e ip = Raises \<and> (\<forall>port. connect_ex e ip port = Raises) \<and>
    arp_ip e ip = Raises \<and> arp_all e = Raises \<longrightarrow>
      get_device_identifier e ip = ''.'' @ last_octet ip) \<and>
   (CHR ''.'' \<notin> set b \<longrightarrow> last_octet (a @ ''.'' @ b) = b)"
proof -
  have dns: "by_dns e ip =
     (case gethostbyaddr e ip of
        Raises \<Rightarrow> None
      | Returns h \<Rightarrow> if h \<noteq> ip \<and> 2 < length h then Some h else None)"
    by (auto simp add: by_dns_def attempt_def split: call.split)
  have netbios: "by_netbios e ip =
     (if platform_system e = ''Darwin'' then
        (case netbios_name e ip of
           Raises \<Rightarrow> None
         | Returns None \<Rightarrow> None
         | Returns (Some n) \<Rightarrow> if n \<noteq> [] then Some n else None)
      else None)"
    by (simp add: by_netbios_def attempt_def split: call.split option.split)
  have mdns: "by_mdns e ip =
     (if platform_system e = ''Darwin'' then
        (case apple_device_name e ip of
           Raises \<Rightarrow> None
         | Returns None \<Rightarrow> None
         | Returns (Some n) \<Rightarrow> if n \<noteq> [] then Some n else None)
      else None)"
    by (simp add: by_mdns_def attempt_def split: call.split option.split)
  have vendor: "by_vendor e ip =
     (case get_mac_address e ip of
        None \<Rightarrow> None
      | Some mac \<Rightarrow>
          (case get_mac_vendor (oui_file e) mac of
             None \<Rightarrow> None
           | Some vendor \<Rightarrow>
               if mac \<noteq> [] \<and> vendor \<noteq> [] then Some (vendor @ ''-'' @ last_octet ip)
               else None))"
    by (simp add: by_vendor_def get_mac_vendor_def split: option.split)
  show ?thesis
    by (intro conjI impI chain_eq dns netbios mdns vendor by_service_find last_octet_eq
        chain_all_raise) simp_all
qed

text \<open>
  Witness for C7: where every call raises the identifier of \<^verbatim>\<open>192.168.1.5\<close> is
  \<^verbatim>\<open>.5\<close>, and a host that answers on port 80 only is \<^verbatim>\<open>HTTP-7\<close>.
\<close>

theorem get_device_identifier_chain_witness:
  "gethostbyaddr silent_env ''192.168.1.5'' = Raises \<and>
   netbios_name silent_env ''192.168.1.5'' = Raises \<and>
   apple_device_name silent_env ''192.168.1.5'' = Raises \<and>
   (\<forall>port. connect_ex silent_env ''192.168.1.5'' port = Raises) \<and>
   arp_ip silent_env ''192.168.1.5'' = Raises \<and>
   arp_all silent_env = Raises \<and>
   get_device_identifier silent_env ''192.168.1.5'' = ''.5'' \<and>
   get_device_identifier web_env ''192.168.0.7'' = ''HTTP-7''"
proof -
  have raises:
    "gethostbyaddr silent_env ''192.168.1.5'' = Raises"
    "netbios_name silent_env ''192.168.1.5'' = Raises"
    "apple_device_name silent_env ''192.168.1.5'' = Raises"
    "\<forall>port. connect_ex silent_env ''192.168.1.5'' port = Raises"
    "arp_ip silent_env ''192.168.1.5'' = Raises"
    "arp_all silent_env = Raises"
    by (simp_all add: silent_env_def)
  note silent_chain =
    get_device_identifier_chain [of silent_env "''192.168.1.5''" "''5''" "''192.168.1''"]
  from silent_chain raises
  have "get_device_identifier silent_env ''192.168.1.5'' = ''.'' @ last_octet ''192.168.1.5''"
    by blast
  moreover from silent_chain
  have "CHR ''.'' \<notin> set ''5'' \<longrightarrow> last_octet (''192.168.1'' @ ''.'' @ ''5'') = ''5''"
    by blast
  ultimately have silent: "get_device_identifier silent_env ''192.168.1.5'' = ''.5''"
    by simp
  note web_chain =
    get_device_identifier_chain [of web_env "''192.168.0.7''" "''7''" "''192.168.0''"]
  have web:
    "gethostbyaddr web_env ''192.168.0.7'' = Raises"
    "netbios_name web_env ''192.168.0.7'' = Raises"
    "apple_device_name web_env ''192.168.0.7'' = Raises"
    "List.find (\<lambda>(port, service). connect_ex web_env ''192.168.0.7'' port = Returns 0)
       service_ports = Some (80, ''HTTP'')"
    by (simp_all add: web_env_def silent_env_def service_ports_def)
  from web_chain
  have "by_dns web_env ''192.168.0.7'' =
     (case gethostbyaddr web_env ''192.168.0.7'' of
        Raises \<Rightarrow> None
      | Returns h \<Rightarrow> if h \<noteq> ''192.168.0.7'' \<and> 2 < length h then Some h else None)"
    by blast
  with web have dns: "by_dns web_env ''192.168.0.7'' = None"
    by simp
  from web_chain
  have "by_netbios web_env ''192.168.0.7'' =
     (if platform_system web_env = ''Darwin'' then
        (case netbios_name web_env ''192.168.0.7'' of
           Raises \<Rightarrow> None
         | Returns None \<Rightarrow> None
         | Returns (Some n) \<Rightarrow> if n \<noteq> [] then Some n else None)
      else None)"
    by blast
  with web have netbios: "by_netbios web_env ''192.168.0.7'' = None"
    by simp
  from web_chain
  have "by_mdns web_env ''192.168.0.7'' =
     (if platform_system web_env = ''Darwin'' then
        (case apple_device_name web_env ''192.168.0.7'' of
           Raises \<Rightarrow> None
         | Returns None \<Rightarrow> None
         | Returns (Some n) \<Rightarrow> if n \<noteq> [] then Some n else None)
      else None)"
    by blast
  with web have mdns: "by_mdns web_env ''192.168.0.7'' = None"
    by simp
  from web_chain
  have "by_service web_env ''192.168.0.7'' service_ports =
     (case List.find (\<lambda>(port, service). connect_ex web_env ''192.168.0.7'' port = Returns 0)
             service_ports of
        None \<Rightarrow> None
      | Some (port, service) \<Rightarrow> Some (service @ ''-'' @ last_octet ''192.168.0.7''))"
    by blast
  with web
  have service: "by_service web_env ''192.168.0.7'' service_ports =
                   Some (''HTTP-'' @ last_octet ''192.168.0.7'')"
    by simp
  from web_chain
  have "CHR ''.'' \<notin> set ''7'' \<longrightarrow> last_octet (''192.168.0'' @ ''.'' @ ''7'') = ''7''"
    by blast
  then have octet: "last_octet ''192.168.0.7'' = ''7''"
    by simp
  from web_chain
  have "get_device_identifier web_env ''192.168.0.7'' =
     (case first_success
             [by_dns web_env ''192.168.0.7'', by_netbios web_env ''192.168.0.7'',
              by_mdns web_env ''192.168.0.7'', by_service web_env ''192.168.0.7'' service_ports,
              by_vendor web_env ''192.168.0.7''] of
        Some name \<Rightarrow> name
      | None \<Rightarrow> ''.'' @ last_octet ''192.168.0.7'')"
    by blast
  then have "get_device_identifier web_env ''192.168.0.7'' = ''HTTP-7''"
    by (simp add: dns netbios mdns service octet)
  with raises silent show ?thesis
    by simp
qed

subsection \<open>Known-device merge\<close>


lemma dict_get_upd: "dict_get (m(k \<mapsto> v)) k' = (if k' = k then v else dict_get m k')"
  by (simp add: dict_get_def)

lemma dict_get_keep_stored:
  "dict_get (keep_stored f st m) g =
     (if g = f \<and> \<not> truthy (dict_get m f) \<and> truthy (dict_get st f) then dict_get st f
      else dict_get m g)"
  by (simp add: keep_stored_def dict_get_upd)

lemma truthy_nonempty: "truthy (dict_get st f) \<Longrightarrow> st \<noteq> Map.empty"
  by (auto simp add: dict_get_def)

lemma overlay_field:
  assumes "f \<in> {''hostname'', ''mac'', ''vendor''}" and "st \<noteq> Map.empty"
  shows "dict_get (overlay (Some st) d) f =
           (if \<not> truthy (dict_get d f) \<and> truthy (dict_get st f) then dict_get st f
            else dict_get d f)"
  using assms
  by (auto simp add: overlay_def Let_def dict_get_upd dict_get_keep_stored)

lemma validate_context_other:
  "g \<noteq> ''status'' \<Longrightarrow> g \<noteq> ''network_context'' \<Longrightarrow>
     dict_get (validate_context k s m) g = dict_get m g"
  by (simp add: validate_context_def dict_get_upd)

lemma merged_field:
  assumes "f \<in> {''hostname'', ''mac'', ''vendor''}" and "truthy (dict_get st f)"
  shows "dict_get (validate_context k s (overlay (Some st) d)) f =
           (if truthy (dict_get d f) then dict_get d f else dict_get st f)"
proof -
  from assms(1) have "f \<noteq> ''status''" "f \<noteq> ''network_context''" by auto
  then have "dict_get (validate_context k s (overlay (Some st) d)) f = dict_get (overlay (Some st) d) f"
    by (rule validate_context_other)
  with assms show ?thesis
    by (simp add: overlay_field truthy_nonempty)
qed

lemma merge_device_Some:
  assumes "merge_device net known device = Returns (Some (key, merged))"
  shows "\<exists>ip. dict_get device ''ip'' = PStr ip \<and> ip \<noteq> [] \<and> key = network_key_of net ip \<and>
           merged = validate_context key net (overlay (find_stored known (PStr ip)) device)"
  using assms
  by (auto simp add: merge_device_def Let_def split: if_splits pyval.splits)

lemma find_stored_unique:
  assumes "stored \<in> set known" and "dict_get stored ''ip'' = PStr ip"
    and "\<forall>k \<in> set known. dict_get k ''ip'' = PStr ip \<longrightarrow> k = stored"
  shows "find_stored known (PStr ip) = Some stored"
  using assms unfolding find_stored_def
proof (induction known)
  case Nil
  then show ?case by simp
next
  case (Cons a known)
  show ?case
  proof (cases "a = stored")
    case True
    with Cons.prems(2) show ?thesis by (simp add: py_eq_str)
  next
    case False
    with Cons.prems(3) have a: "dict_get a ''ip'' \<noteq> PStr ip" by auto
    from False Cons.prems(1) have m: "stored \<in> set known" by simp
    from Cons.prems(3)
    have u: "\<forall>k \<in> set known. dict_get k ''ip'' = PStr ip \<longrightarrow> k = stored" by simp
    from a Cons.IH [OF m Cons.prems(2) u] show ?thesis by (simp add: py_eq_str)
  qed
qed

lemma map_of_group_map:
  "map_of (map (\<lambda>(k', ds). if k' = k then (k', ds @ [d]) else (k', ds)) G) x =
     (if x = k then map_option (\<lambda>ds. ds @ [d]) (map_of G k) else map_of G x)"
  by (induction G) auto

lemma group_get_append:
  "group_get (group_append k d G) x = (if x = k then group_get G k @ [d] else group_get G x)"
proof (cases "k \<in> fst ` set G")
  case True
  then obtain v where "map_of G k = Some v"
    by (metis domD dom_map_of_conv_image_fst)
  with True show ?thesis
    by (simp add: group_get_def group_append_def map_of_group_map)
next
  case False
  then have "map_of G k = None"
    by (simp add: map_of_eq_None_iff)
  with False show ?thesis
    by (auto simp add: group_get_def group_append_def map_of_append split: option.split)
qed

lemma any_ip_found:
  assumes "\<forall>x \<in> set ds. x ''ip'' \<noteq> None" and "\<exists>x \<in> set ds. x ''ip'' = Some (PStr ip)"
  shows "any_ip (PStr ip) ds = Returns True"
  using assms
proof (induction ds)
  case Nil
  then show ?case by simp
next
  case (Cons a ds)
  from Cons.prems(1) obtain v where v: "a ''ip'' = Some v" by auto
  show ?case
  proof (cases "v = PStr ip")
    case True
    with v show ?thesis by (simp add: bind_def item_def py_eq_str)
  next
    case False
    with v Cons.prems(2) have "\<exists>x \<in> set ds. x ''ip'' = Some (PStr ip)" by auto
    moreover from Cons.prems(1) have "\<forall>x \<in> set ds. x ''ip'' \<noteq> None" by simp
    ultimately have "any_ip (PStr ip) ds = Returns True" by (rule Cons.IH [rotated])
    with v False show ?thesis by (simp add: bind_def item_def py_eq_str)
  qed
qed

lemma keep_stored_self: "keep_stored f d d = d"
  by (simp add: keep_stored_def)

lemma overlay_self:
  "overlay (Some d) d =
     (if truthy (dict_get d ''last_seen'') then d(''stored_last_seen'' \<mapsto> dict_get d ''last_seen'')
      else d)"
proof (cases "d = Map.empty")
  case True
  then show ?thesis by (simp add: overlay_def dict_get_def)
next
  case False
  then show ?thesis by (simp add: overlay_def keep_stored_self)
qed

lemma find_stored_self:
  assumes "d \<in> set L" and "distinct (map (\<lambda>d. d ''ip'') L)" and "d ''ip'' = Some (PStr ip)"
  shows "find_stored L (PStr ip) = Some d"
  using assms unfolding find_stored_def
proof (induction L)
  case Nil
  then show ?case by simp
next
  case (Cons a L)
  show ?case
  proof (cases "a = d")
    case True
    with Cons.prems show ?thesis by (simp add: py_eq_str dict_get_def)
  next
    case False
    with Cons.prems have dL: "d \<in> set L" by simp
    from Cons.prems(2) have "a ''ip'' \<notin> (\<lambda>d. d ''ip'') ` set L" by simp
    with dL have "a ''ip'' \<noteq> d ''ip''" by auto
    with Cons.prems(3) have "dict_get a ''ip'' \<noteq> PStr ip"
      by (auto simp add: dict_get_def split: option.splits)
    moreover from Cons.prems(2) have "distinct (map (\<lambda>d. d ''ip'') L)" by simp
    ultimately show ?thesis
      using Cons.IH [OF dL _ Cons.prems(3)] by (simp add: py_eq_str)
  qed
qed

lemma merge_device_self:
  assumes "d \<in> set L" and "distinct (map (\<lambda>d. d ''ip'') L)"
    and "d ''ip'' = Some (PStr ip)" and "ip \<noteq> []"
  shows "merge_device net L d = Returns (Some (device_key net d, annotated net d))"
proof -
  from assms(3) have g: "dict_get d ''ip'' = PStr ip" by (simp add: dict_get_def)
  from assms have "find_stored L (PStr ip) = Some d" by (simp add: find_stored_self)
  with g assms(4) show ?thesis
    by (simp add: merge_device_def Let_def device_key_def annotated_def overlay_self)
qed

lemma merge_scanned_self:
  assumes "set ds \<subseteq> set L" and "distinct (map (\<lambda>d. d ''ip'') L)"
    and "\<forall>d \<in> set L. \<exists>ip. d ''ip'' = Some (PStr ip) \<and> ip \<noteq> []"
  shows "merge_scanned net L ds G =
           Returns (foldl (\<lambda>G d. group_append (device_key net d) (annotated net d) G) G ds)"
  using assms(1)
proof (induction ds arbitrary: G)
  case Nil
  show ?case by simp
next
  case (Cons d ds)
  from Cons.prems have dL: "d \<in> set L" and sub: "set ds \<subseteq> set L" by simp_all
  from dL assms(3) obtain ip where "d ''ip'' = Some (PStr ip)" "ip \<noteq> []" by blast
  with dL assms(2)
  have "merge_device net L d = Returns (Some (device_key net d, annotated net d))"
    by (rule merge_device_self)
  then show ?case
    by (simp add: bind_def Cons.IH [OF sub])
qed

lemma group_get_foldl:
  "group_get (foldl (\<lambda>G d. group_append (key d) (f d) G) G ds) k =
     group_get G k @ map f (filter (\<lambda>d. key d = k) ds)"
  by (induction ds arbitrary: G) (simp_all add: group_get_append)

lemma annotated_ip: "annotated net d ''ip'' = d ''ip''"
  by (simp add: annotated_def validate_context_def)

lemma add_offline_found:
  assumes "\<forall>d \<in> set ds. \<exists>ip. d ''ip'' = Some (PStr ip) \<and> ip \<noteq> [] \<and>
             (\<exists>x \<in> set (group_get G (device_key net d)). x ''ip'' = Some (PStr ip))"
    and "\<forall>k. \<forall>x \<in> set (group_get G k). x ''ip'' \<noteq> None"
  shows "add_offline net ds G = Returns G"
  using assms(1)
proof (induction ds)
  case Nil
  show ?case by simp
next
  case (Cons d ds)
  from Cons.prems obtain ip where ip: "d ''ip'' = Some (PStr ip)" "ip \<noteq> []"
    and x: "\<exists>x \<in> set (group_get G (device_key net d)). x ''ip'' = Some (PStr ip)"
    by auto
  from ip have g: "dict_get d ''ip'' = PStr ip" by (simp add: dict_get_def)
  then have k: "device_key net d = network_key_of net ip" by (simp add: device_key_def)
  from assms(2) have "\<forall>x \<in> set (group_get G (network_key_of net ip)). x ''ip'' \<noteq> None" by blast
  moreover from x k have "\<exists>x \<in> set (group_get G (network_key_of net ip)). x ''ip'' = Some (PStr ip)"
    by simp
  ultimately have "any_ip (PStr ip) (group_get G (network_key_of net ip)) = Returns True"
    by (rule any_ip_found)
  moreover from Cons.prems have "add_offline net ds G = Returns G"
    by (intro Cons.IH) simp
  ultimately show ?case
    using g ip(2) by (simp add: bind_def)
qed

lemma self_merge_groups:
  assumes "distinct (map (\<lambda>d. d ''ip'') L)"
    and "\<forall>d \<in> set L. \<exists>ip. d ''ip'' = Some (PStr ip) \<and> ip \<noteq> []"
  shows "\<exists>G. network_groups_of net L L = Returns G \<and>
           (\<forall>key. group_get G key =
              map (annotated net) (filter (\<lambda>d. device_key net d = key) L))"
proof -
  let ?G = "foldl (\<lambda>G d. group_append (device_key net d) (annotated net d) G) [] L"
  have scanned: "merge_scanned net L L [] = Returns ?G"
    using assms by (intro merge_scanned_self) simp_all
  have get: "group_get ?G key = map (annotated net) (filter (\<lambda>d. device_key net d = key) L)" for key
  proof -
    have "group_get [] key = []" by (simp add: group_get_def)
    then show ?thesis by (simp add: group_get_foldl)
  qed
  have keys: "\<forall>k. \<forall>x \<in> set (group_get ?G k). x ''ip'' \<noteq> None"
  proof (intro allI ballI)
    fix k x assume "x \<in> set (group_get ?G k)"
    then obtain d where "d \<in> set L" "x = annotated net d" by (auto simp add: get)
    with assms(2) show "x ''ip'' \<noteq> None" by (auto simp add: annotated_ip)
  qed
  have found: "\<forall>d \<in> set L. \<exists>ip. d ''ip'' = Some (PStr ip) \<and> ip \<noteq> [] \<and>
             (\<exists>x \<in> set (group_get ?G (device_key net d)). x ''ip'' = Some (PStr ip))"
  proof
    fix d assume dL: "d \<in> set L"
    with assms(2) obtain ip where ip: "d ''ip'' = Some (PStr ip)" "ip \<noteq> []" by blast
    from dL have "annotated net d \<in> set (group_get ?G (device_key net d))"
      by (simp add: get)
    with ip show "\<exists>ip. d ''ip'' = Some (PStr ip) \<and> ip \<noteq> [] \<and>
             (\<exists>x \<in> set (group_get ?G (device_key net d)). x ''ip'' = Some (PStr ip))"
      using annotated_ip [of net d] by auto
  qed
  from found keys have "add_offline net L ?G = Returns ?G" by (rule add_offline_found)
  with scanned have "network_groups_of net L L = Returns ?G"
    by (simp add: network_groups_of_def bind_def)
  with get show ?thesis by blast
qed

lemma annotated_other:
  assumes "x \<noteq> ''status''" "x \<noteq> ''network_context''" "x \<noteq> ''stored_last_seen''"
  shows "annotated net d x = d x"
  using assms by (simp add: annotated_def validate_context_def)

lemma annotated_status:
  "annotated net d ''status'' =
     (if device_key net d \<noteq> net \<and> \<not> truthy (dict_get_default d ''pingable'' (PBool False))
      then Some (PStr ''offline'') else d ''status'')"
  by (simp add: annotated_def validate_context_def dict_get_default_def)

lemma overlay_other:
  assumes "x \<noteq> ''hostname''" "x \<noteq> ''mac''" "x \<noteq> ''vendor''" "x \<noteq> ''stored_last_seen''"
  shows "overlay st d x = d x"
  using assms
  by (cases st) (simp_all add: overlay_def keep_stored_def Let_def)

lemma merge_device_context:
  assumes "merge_device net known device = Returns (Some (key, merged))"
  shows "key = device_key net device"
    and "merged ''status'' =
           (if key \<noteq> net \<and> \<not> truthy (dict_get_default device ''pingable'' (PBool False))
            then Some (PStr ''offline'') else device ''status'')"
    and "merged ''network_context'' =
           Some (PStr (if key = net then ''primary''
                       else if truthy (dict_get_default device ''pingable'' (PBool False))
                       then ''discovered_online'' else ''discovered_offline''))"
proof -
  from assms obtain ip where ip: "dict_get device ''ip'' = PStr ip" "key = network_key_of net ip"
    and m: "merged = validate_context key net (overlay (find_stored known (PStr ip)) device)"
    by (auto dest: merge_device_Some)
  let ?o = "overlay (find_stored known (PStr ip)) device"
  have p: "dict_get_default ?o ''pingable'' (PBool False) = dict_get_default device ''pingable'' (PBool False)"
    by (simp add: dict_get_default_def overlay_other)
  have s: "?o ''status'' = device ''status''"
    by (simp add: overlay_other)
  from ip show "key = device_key net device" by (simp add: device_key_def)
  from m p s show "merged ''status'' =
           (if key \<noteq> net \<and> \<not> truthy (dict_get_default device ''pingable'' (PBool False))
            then Some (PStr ''offline'') else device ''status'')"
    by (simp add: validate_context_def)
  from m p show "merged ''network_context'' =
           Some (PStr (if key = net then ''primary''
                       else if truthy (dict_get_default device ''pingable'' (PBool False))
                       then ''discovered_online'' else ''discovered_offline''))"
    by (simp add: validate_context_def)
qed

text \<open>
  C4.  A merged device whose sub-network, derived from the prefix of its address, differs
  from the subnet of the interface keeps its status only when it is pingable, and then has
  the network context \<^verbatim>\<open>discovered_online\<close>; otherwise it is emitted with the status
  \<^verbatim>\<open>offline\<close> and the network context \<^verbatim>\<open>discovered_offline\<close>, whatever status it had.
\<close>

theorem discovered_context:
  "merge_device net known device = Returns (Some (key, merged)) \<and> key \<noteq> net \<longrightarrow>
     key = device_key net device \<and>
     (truthy (dict_get_default device ''pingable'' (PBool False)) \<longrightarrow>
        merged ''status'' = device ''status'' \<and>
        merged ''network_context'' = Some (PStr ''discovered_online'')) \<and>
     (\<not> truthy (dict_get_default device ''pingable'' (PBool False)) \<longrightarrow>
        merged ''status'' = Some (PStr ''offline'') \<and>
        merged ''network_context'' = Some (PStr ''discovered_offline''))"
  using merge_device_context [of net known device key merged]
  by simp

lemma camera_facts:
  "camera_record ''ip'' = Some (PStr ''134.124.230.7'')"
  "camera_record ''status'' = Some (PStr ''online'')"
  "dict_get_default camera_record ''pingable'' (PBool False) = PBool False"
  "device_key ''192.168.0.0/24'' camera_record = ''134.124.230.0/24''"
  by (simp_all add: camera_record_def dict_get_default_def device_key_def dict_get_def
      network_key_of_def startswith_def)

text \<open>
  Witness for C4: the device \<^verbatim>\<open>134.124.230.7\<close>, stored as online and not pingable, on
  an interface whose subnet is \<^verbatim>\<open>192.168.0.0/24\<close>.
\<close>

theorem discovered_context_witness:
  "merge_device ''192.168.0.0/24'' [camera_record] camera_record =
     Returns (Some (''134.124.230.0/24'', annotated ''192.168.0.0/24'' camera_record)) \<and>
   ''134.124.230.0/24'' \<noteq> ''192.168.0.0/24'' \<and>
   \<not> truthy (dict_get_default camera_record ''pingable'' (PBool False)) \<and>
   camera_record ''status'' = Some (PStr ''online'') \<and>
   annotated ''192.168.0.0/24'' camera_record ''status'' = Some (PStr ''offline'') \<and>
   annotated ''192.168.0.0/24'' camera_record ''network_context'' =
     Some (PStr ''discovered_offline'')"
proof -
  have m: "merge_device ''192.168.0.0/24'' [camera_record] camera_record =
     Returns (Some (''134.124.230.0/24'', annotated ''192.168.0.0/24'' camera_record))"
    using merge_device_self [of camera_record "[camera_record]" "''134.124.230.7''" "''192.168.0.0/24''"]
    by (simp add: camera_facts)
  from m discovered_context [of "''192.168.0.0/24''" "[camera_record]" camera_record
      "''134.124.230.0/24''" "annotated ''192.168.0.0/24'' camera_record"]
  show ?thesis
    by (simp add: camera_facts)
qed

lemma known_record_fields:
  assumes "known_record e device = Returns (Some k)"
  shows "k ''hostname'' = device ''hostname''"
    and "k ''mac'' = device ''mac''"
    and "k ''vendor'' =
           (if truthy (dict_get device ''mac'') then
              (case vendor_of e (dict_get device ''mac'') of
                 None \<Rightarrow> None
               | Some vendor \<Rightarrow>
                   if vendor \<noteq> [] \<and> vendor \<noteq> ''Unknown'' then Some (PStr vendor) else None)
            else None)"
proof -
  from assms obtain st ip hn mac where f: "device ''status'' = Some st" "device ''ip'' = Some ip"
    "device ''hostname'' = Some hn" "device ''mac'' = Some mac"
    by (auto simp add: known_record_def item_def split: option.splits if_splits dest!: bind_Returns)
  from f have g: "dict_get device ''mac'' = mac" by (simp add: dict_get_def)
  from assms f show "k ''hostname'' = device ''hostname''"
    by (auto simp add: known_record_def item_def bind_def Let_def split: if_splits option.splits)
  from assms f show "k ''mac'' = device ''mac''"
    by (auto simp add: known_record_def item_def bind_def Let_def split: if_splits option.splits)
  from assms f g show "k ''vendor'' =
           (if truthy (dict_get device ''mac'') then
              (case vendor_of e (dict_get device ''mac'') of
                 None \<Rightarrow> None
               | Some vendor \<Rightarrow>
                   if vendor \<noteq> [] \<and> vendor \<noteq> ''Unknown'' then Some (PStr vendor) else None)
            else None)"
    by (auto simp add: known_record_def item_def bind_def Let_def split: if_splits option.splits)
qed

lemma store_devices_eq:
  assumes "\<forall>d \<in> set devices. known_record e d \<noteq> Raises"
  shows "store_devices e devices stored =
           (stored @ List.map_filter
                       (\<lambda>d. case known_record e d of Raises \<Rightarrow> None | Returns r \<Rightarrow> r) devices,
            True)"
  using assms
proof (induction devices arbitrary: stored)
  case Nil
  show ?case by (simp add: List.map_filter_simps)
next
  case (Cons device rest)
  from Cons.prems obtain r where r: "known_record e device = Returns r"
    by (cases "known_record e device") auto
  from Cons.prems have rest: "\<forall>d \<in> set rest. known_record e d \<noteq> Raises" by simp
  show ?case
  proof (cases r)
    case None
    with r Cons.IH [OF rest, of stored] show ?thesis
      by (simp add: List.map_filter_simps)
  next
    case (Some k)
    with r Cons.IH [OF rest, of "stored @ [k]"] show ?thesis
      by (simp add: List.map_filter_simps)
  qed
qed

lemma update_known_devices_eq:
  "\<forall>d \<in> set devices. known_record e d \<noteq> Raises \<Longrightarrow>
     update_known_devices e devices =
       (List.map_filter (\<lambda>d. case known_record e d of Raises \<Rightarrow> None | Returns r \<Rightarrow> r) devices,
        True)"
  by (simp add: update_known_devices_def store_devices_eq)

text \<open>
  C2, as the code has it.  Merging a stored record with a scanned record yields, for each
  of \<^verbatim>\<open>hostname\<close>, \<^verbatim>\<open>mac\<close> and \<^verbatim>\<open>vendor\<close> that is non-empty in the stored record, a
  non-empty value, and the stored value itself when the scanned record has an empty one.
  The merged record of \<^verbatim>\<open>update_tree_view\<close> is this merge with the record found in the
  store for the address of the device, which is the stored record with that address when
  there is only one.  \<^verbatim>\<open>update_known_devices\<close> replaces the stored list by one record for every device
  that is not hidden; the record copies \<^verbatim>\<open>hostname\<close> and \<^verbatim>\<open>mac\<close> from the device and
  takes its vendor from a new lookup of the MAC address, not from the device: it has none
  when the lookup finds none.
\<close>

theorem hard_earned_data:
  "(field \<in> {''hostname'', ''mac'', ''vendor''} \<and> truthy (dict_get stored field) \<longrightarrow>
      truthy (dict_get (validate_context key net (overlay (Some stored) device)) field) \<and>
      (\<not> truthy (dict_get device field) \<longrightarrow>
         dict_get (validate_context key net (overlay (Some stored) device)) field =
           dict_get stored field)) \<and>
   (merge_device net known device = Returns (Some (key, merged)) \<and>
    find_stored known (dict_get device ''ip'') = Some stored \<longrightarrow>
      merged = validate_context key net (overlay (Some stored) device)) \<and>
   (stored \<in> set known \<and> dict_get stored ''ip'' = PStr ip \<and>
    (\<forall>k \<in> set known. dict_get k ''ip'' = PStr ip \<longrightarrow> k = stored) \<longrightarrow>
      find_stored known (PStr ip) = Some stored) \<and>
   (known_record e device = Returns (Some written) \<longrightarrow>
      written ''hostname'' = device ''hostname'' \<and>
      written ''mac'' = device ''mac'' \<and>
      written ''vendor'' =
        (if truthy (dict_get device ''mac'') then
           (case vendor_of e (dict_get device ''mac'') of
              None \<Rightarrow> None
            | Some vendor \<Rightarrow>
                if vendor \<noteq> [] \<and> vendor \<noteq> ''Unknown'' then Some (PStr vendor) else None)
         else None)) \<and>
   ((\<forall>d \<in> set devices. known_record e d \<noteq> Raises) \<longrightarrow>
      update_known_devices e devices =
        (List.map_filter
           (\<lambda>d. case known_record e d of Raises \<Rightarrow> None | Returns r \<Rightarrow> r) devices,
         True))"
proof (intro conjI impI)
  assume "\<forall>d \<in> set devices. known_record e d \<noteq> Raises"
  then show "update_known_devices e devices =
        (List.map_filter
           (\<lambda>d. case known_record e d of Raises \<Rightarrow> None | Returns r \<Rightarrow> r) devices,
         True)"
    by (rule update_known_devices_eq)
next
  assume a: "field \<in> {''hostname'', ''mac'', ''vendor''} \<and> truthy (dict_get stored field)"
  then show "truthy (dict_get (validate_context key net (overlay (Some stored) device)) field)"
    by (simp add: merged_field)
  assume "\<not> truthy (dict_get device field)"
  with a show "dict_get (validate_context key net (overlay (Some stored) device)) field =
                 dict_get stored field"
    by (simp add: merged_field)
next
  assume "merge_device net known device = Returns (Some (key, merged)) \<and>
          find_stored known (dict_get device ''ip'') = Some stored"
  then show "merged = validate_context key net (overlay (Some stored) device)"
    by (auto dest!: merge_device_Some)
next
  assume "stored \<in> set known \<and> dict_get stored ''ip'' = PStr ip \<and>
          (\<forall>k \<in> set known. dict_get k ''ip'' = PStr ip \<longrightarrow> k = stored)"
  then show "find_stored known (PStr ip) = Some stored"
    by (simp add: find_stored_unique)
next
  assume w: "known_record e device = Returns (Some written)"
  then show "written ''hostname'' = device ''hostname''"
    by (rule known_record_fields)
  from w show "written ''mac'' = device ''mac''"
    by (rule known_record_fields)
  from w show "written ''vendor'' =
        (if truthy (dict_get device ''mac'') then
           (case vendor_of e (dict_get device ''mac'') of
              None \<Rightarrow> None
            | Some vendor \<Rightarrow>
                if vendor \<noteq> [] \<and> vendor \<noteq> ''Unknown'' then Some (PStr vendor) else None)
         else None)"
    by (rule known_record_fields)
qed

lemma nas_facts:
  "dict_get nas_record ''ip'' = PStr ''192.168.1.5''"
  "dict_get nas_record ''hostname'' = PStr ''nas.local''"
  "dict_get nas_record ''mac'' = PStr ''AA:BB:CC:DD:EE:FF''"
  "dict_get nas_record ''vendor'' = PStr ''Synology''"
  "dict_get fresh_probe ''ip'' = PStr ''192.168.1.5''"
  "dict_get fresh_probe ''hostname'' = PNone"
  "dict_get fresh_probe ''mac'' = PNone"
  "dict_get fresh_probe ''vendor'' = PNone"
  by (simp_all add: nas_record_def fresh_probe_def dict_get_def)

text \<open>
  Witness for C2: the stored record of \<^verbatim>\<open>nas.local\<close> and a probe of the same address
  without host name, MAC address and vendor; and what the store keeps of the record when
  there is no OUI file.
\<close>

theorem hard_earned_data_witness:
  "find_stored [nas_record] (PStr ''192.168.1.5'') = Some nas_record \<and>
   merge_device ''192.168.1.0/24'' [nas_record] fresh_probe =
     Returns (Some (''192.168.1.0/24'',
       validate_context ''192.168.1.0/24'' ''192.168.1.0/24''
         (overlay (Some nas_record) fresh_probe))) \<and>
   dict_get fresh_probe ''hostname'' = PNone \<and>
   dict_get fresh_probe ''mac'' = PNone \<and>
   dict_get fresh_probe ''vendor'' = PNone \<and>
   dict_get (validate_context ''192.168.1.0/24'' ''192.168.1.0/24''
      (overlay (Some nas_record) fresh_probe)) ''hostname'' = PStr ''nas.local'' \<and>
   dict_get (validate_context ''192.168.1.0/24'' ''192.168.1.0/24''
      (overlay (Some nas_record) fresh_probe)) ''mac'' = PStr ''AA:BB:CC:DD:EE:FF'' \<and>
   dict_get (validate_context ''192.168.1.0/24'' ''192.168.1.0/24''
      (overlay (Some nas_record) fresh_probe)) ''vendor'' = PStr ''Synology'' \<and>
   (\<exists>written. known_record silent_env nas_record = Returns (Some written) \<and>
      update_known_devices silent_env [nas_record] = ([written], True) \<and>
      written ''hostname'' = Some (PStr ''nas.local'') \<and>
      written ''mac'' = Some (PStr ''AA:BB:CC:DD:EE:FF'') \<and>
      written ''vendor'' = None)"
proof -
  note h = hard_earned_data [of _ nas_record "''192.168.1.0/24''" "''192.168.1.0/24''"
      fresh_probe "[nas_record]" _ "''192.168.1.5''"]
  from h [of "''hostname''"] have found: "find_stored [nas_record] (PStr ''192.168.1.5'') = Some nas_record"
    by (simp add: nas_facts)
  then have "merge_device ''192.168.1.0/24'' [nas_record] fresh_probe =
     Returns (Some (''192.168.1.0/24'',
       validate_context ''192.168.1.0/24'' ''192.168.1.0/24''
         (overlay (Some nas_record) fresh_probe)))"
    by (simp add: merge_device_def nas_facts network_key_of_def startswith_def Let_def)
  moreover from h [of "''hostname''"]
  have "dict_get (validate_context ''192.168.1.0/24'' ''192.168.1.0/24''
      (overlay (Some nas_record) fresh_probe)) ''hostname'' = PStr ''nas.local''"
    by (simp add: nas_facts)
  moreover from h [of "''mac''"]
  have "dict_get (validate_context ''192.168.1.0/24'' ''192.168.1.0/24''
      (overlay (Some nas_record) fresh_probe)) ''mac'' = PStr ''AA:BB:CC:DD:EE:FF''"
    by (simp add: nas_facts)
  moreover from h [of "''vendor''"]
  have "dict_get (validate_context ''192.168.1.0/24'' ''192.168.1.0/24''
      (overlay (Some nas_record) fresh_probe)) ''vendor'' = PStr ''Synology''"
    by (simp add: nas_facts)
  moreover have "\<exists>written. known_record silent_env nas_record = Returns (Some written) \<and>
      update_known_devices silent_env [nas_record] = ([written], True) \<and>
      written ''hostname'' = Some (PStr ''nas.local'') \<and>
      written ''mac'' = Some (PStr ''AA:BB:CC:DD:EE:FF'') \<and>
      written ''vendor'' = None"
  proof -
    have fields: "nas_record ''status'' = Some (PStr ''online'')"
      "nas_record ''ip'' = Some (PStr ''192.168.1.5'')"
      "nas_record ''hostname'' = Some (PStr ''nas.local'')"
      "nas_record ''mac'' = Some (PStr ''AA:BB:CC:DD:EE:FF'')"
      by (simp_all add: nas_record_def)
    have lookup: "vendor_of silent_env (PStr ''AA:BB:CC:DD:EE:FF'') = None"
      by code_simp
    from fields have "\<exists>written. known_record silent_env nas_record = Returns (Some written)"
      by (simp add: known_record_def bind_def item_def Let_def)
    then obtain written where w: "known_record silent_env nas_record = Returns (Some written)"
      by blast
    from w hard_earned_data [where device = nas_record and e = silent_env and written = written]
      fields lookup
    have "written ''hostname'' = Some (PStr ''nas.local'')"
      "written ''mac'' = Some (PStr ''AA:BB:CC:DD:EE:FF'')"
      "written ''vendor'' = None"
      by (simp_all add: nas_facts)
    moreover from w
      hard_earned_data [where device = nas_record and e = silent_env and written = written
        and devices = "[nas_record]"]
    have "update_known_devices silent_env [nas_record] = ([written], True)"
      by (simp add: List.map_filter_simps)
    ultimately show ?thesis using w by blast
  qed
  ultimately show ?thesis
    using found by (simp add: nas_facts)
qed

text \<open>
  Counterexample to C2 as stated: one scan cycle over a store that holds \<^verbatim>\<open>nas.local\<close>
  with the vendor \<^verbatim>\<open>Synology\<close>, in an environment where the host does not answer and
  there is no OUI file.  The list of the live scanner still has host name, MAC address
  and vendor, and the list written to the store has lost the vendor.
\<close>

theorem store_rewrite_drops_vendor_counterexample:
  "dict_get nas_record ''vendor'' = PStr ''Synology'' \<and>
   map (\<lambda>d. map (dict_get d) [''ip'', ''hostname'', ''mac'', ''vendor'', ''status''])
     (fst (scan_network_for_devices_live quiet_env lan [nas_record])) =
     [[PStr ''192.168.1.5'', PStr ''nas.local'', PStr ''AA:BB:CC:DD:EE:FF'', PStr ''Synology'',
       PStr ''offline'']] \<and>
   map (\<lambda>k. map (dict_get k) [''ip'', ''hostname'', ''mac'', ''vendor'', ''status''])
     (fst (update_known_devices quiet_env
        (fst (scan_network_for_devices_live quiet_env lan [nas_record])))) =
     [[PStr ''192.168.1.5'', PStr ''nas.local'', PStr ''AA:BB:CC:DD:EE:FF'', PNone,
       PStr ''offline'']] \<and>
   snd (update_known_devices quiet_env
        (fst (scan_network_for_devices_live quiet_env lan [nas_record])))"
  by code_simp

text \<open>
  C6, as the code has it.  For a list of records with distinct, non-empty string
  addresses, the merge of the list with itself returns, for every sub-network, the
  records of that sub-network in their order, each with the annotations of the merge and
  none added as offline.  An annotated record agrees with its original on every key but
  \<^verbatim>\<open>status\<close>, \<^verbatim>\<open>network_context\<close> and \<^verbatim>\<open>stored_last_seen\<close>, and its status is that
  of the original unless the record lies outside the subnet of the interface and is not
  pingable, where it is \<^verbatim>\<open>offline\<close>.
\<close>

theorem self_merge:
  "(distinct (map (\<lambda>d. d ''ip'') L) \<and>
    (\<forall>d \<in> set L. \<exists>ip. d ''ip'' = Some (PStr ip) \<and> ip \<noteq> []) \<longrightarrow>
      (\<exists>G. network_groups_of net L L = Returns G \<and>
           (\<forall>key. group_get G key =
               map (annotated net) (filter (\<lambda>d. device_key net d = key) L)))) \<and>
   (x \<notin> {''status'', ''network_context'', ''stored_last_seen''} \<longrightarrow>
      annotated net d x = d x) \<and>
   annotated net d ''status'' =
     (if device_key net d \<noteq> net \<and> \<not> truthy (dict_get_default d ''pingable'' (PBool False))
      then Some (PStr ''offline'') else d ''status'')"
  using self_merge_groups [of L net] annotated_other [of x net d] annotated_status [of net d]
  by simp

text \<open>
  Witness for C6: the merge of a list of two records with itself on the interface
  \<^verbatim>\<open>192.168.0.0/24\<close>.
\<close>

theorem self_merge_witness:
  "distinct (map (\<lambda>d. d ''ip'') [nas_record, camera_record]) \<and>
   (\<exists>G. network_groups_of ''192.168.0.0/24'' [nas_record, camera_record]
           [nas_record, camera_record] = Returns G \<and>
        group_get G ''192.168.0.0/24'' = [annotated ''192.168.0.0/24'' nas_record] \<and>
        group_get G ''134.124.230.0/24'' = [annotated ''192.168.0.0/24'' camera_record]) \<and>
   annotated ''192.168.0.0/24'' nas_record ''hostname'' = Some (PStr ''nas.local'') \<and>
   annotated ''192.168.0.0/24'' nas_record ''status'' = Some (PStr ''online'') \<and>
   annotated ''192.168.0.0/24'' camera_record ''status'' = Some (PStr ''offline'')"
proof -
  have keys: "device_key ''192.168.0.0/24'' nas_record = ''192.168.0.0/24''"
    "device_key ''192.168.0.0/24'' camera_record = ''134.124.230.0/24''"
    by (simp_all add: device_key_def nas_record_def camera_record_def dict_get_def
        network_key_of_def startswith_def)
  have ips: "nas_record ''ip'' = Some (PStr ''192.168.1.5'')"
    "camera_record ''ip'' = Some (PStr ''134.124.230.7'')"
    by (simp_all add: nas_record_def camera_record_def)
  have d: "distinct (map (\<lambda>d. d ''ip'') [nas_record, camera_record])"
    by (simp add: ips)
  have "\<forall>d \<in> set [nas_record, camera_record]. \<exists>ip. d ''ip'' = Some (PStr ip) \<and> ip \<noteq> []"
    by (simp add: ips)
  with d have pre: "distinct (map (\<lambda>d. d ''ip'') [nas_record, camera_record]) \<and>
    (\<forall>d \<in> set [nas_record, camera_record]. \<exists>ip. d ''ip'' = Some (PStr ip) \<and> ip \<noteq> [])"
    by (rule conjI)
  note groups = self_merge [of "[nas_record, camera_record]" "''192.168.0.0/24''",
      THEN conjunct1, THEN mp, OF pre]
  then obtain G where G: "network_groups_of ''192.168.0.0/24'' [nas_record, camera_record]
           [nas_record, camera_record] = Returns G"
    and get: "\<And>key. group_get G key =
               map (annotated ''192.168.0.0/24'')
                 (filter (\<lambda>d. device_key ''192.168.0.0/24'' d = key) [nas_record, camera_record])"
    by blast
  have g1: "group_get G ''192.168.0.0/24'' = [annotated ''192.168.0.0/24'' nas_record]"
    by (simp add: get keys)
  have g2: "group_get G ''134.124.230.0/24'' = [annotated ''192.168.0.0/24'' camera_record]"
    by (simp add: get keys)
  note other = self_merge [of "[]" "''192.168.0.0/24''" "''hostname''" nas_record,
      THEN conjunct2, THEN conjunct1]
  moreover have "nas_record ''hostname'' = Some (PStr ''nas.local'')"
    by (simp add: nas_record_def)
  ultimately have h: "annotated ''192.168.0.0/24'' nas_record ''hostname'' = Some (PStr ''nas.local'')"
    by simp
  note st = self_merge [of "[]" "''192.168.0.0/24''" "''hostname''" nas_record,
      THEN conjunct2, THEN conjunct2]
  moreover have "nas_record ''status'' = Some (PStr ''online'')"
    by (simp add: nas_record_def)
  ultimately have s1: "annotated ''192.168.0.0/24'' nas_record ''status'' = Some (PStr ''online'')"
    by (simp add: keys)
  note st' = self_merge [of "[]" "''192.168.0.0/24''" "''hostname''" camera_record,
      THEN conjunct2, THEN conjunct2]
  then have s2: "annotated ''192.168.0.0/24'' camera_record ''status'' = Some (PStr ''offline'')"
    by (simp add: keys camera_facts)
  from G g1 g2 have "\<exists>G. network_groups_of ''192.168.0.0/24'' [nas_record, camera_record]
           [nas_record, camera_record] = Returns G \<and>
        group_get G ''192.168.0.0/24'' = [annotated ''192.168.0.0/24'' nas_record] \<and>
        group_get G ''134.124.230.0/24'' = [annotated ''192.168.0.0/24'' camera_record]"
    by blast
  with d h s1 s2 show ?thesis
    by (intro conjI)
qed

lemma annotated_context:
  "annotated net d ''network_context'' =
     Some (PStr (if device_key net d = net then ''primary''
                 else if truthy (dict_get_default d ''pingable'' (PBool False))
                 then ''discovered_online'' else ''discovered_offline''))"
  by (simp add: annotated_def validate_context_def dict_get_default_def)

text \<open>
  Counterexample to C6 as stated: merged with itself, the record of \<^verbatim>\<open>134.124.230.7\<close>
  changes its status from online to offline and gains a network context.
\<close>

theorem self_merge_status_counterexample:
  "network_groups_of ''192.168.0.0/24'' [camera_record] [camera_record] =
     Returns [(''134.124.230.0/24'', [annotated ''192.168.0.0/24'' camera_record])] \<and>
   camera_record ''status'' = Some (PStr ''online'') \<and>
   annotated ''192.168.0.0/24'' camera_record ''status'' = Some (PStr ''offline'') \<and>
   camera_record ''network_context'' = None \<and>
   annotated ''192.168.0.0/24'' camera_record ''network_context'' =
     Some (PStr ''discovered_offline'')"
proof -
  have m: "merge_device ''192.168.0.0/24'' [camera_record] camera_record =
     Returns (Some (''134.124.230.0/24'', annotated ''192.168.0.0/24'' camera_record))"
    using merge_device_self [of camera_record "[camera_record]" "''134.124.230.7''" "''192.168.0.0/24''"]
    by (simp add: camera_facts)
  have g: "dict_get camera_record ''ip'' = PStr ''134.124.230.7''"
    by (simp add: camera_record_def dict_get_def)
  have "network_groups_of ''192.168.0.0/24'' [camera_record] [camera_record] =
     Returns [(''134.124.230.0/24'', [annotated ''192.168.0.0/24'' camera_record])]"
    by (simp add: network_groups_of_def m bind_def group_append_def g network_key_of_def
        startswith_def group_get_def item_def annotated_ip camera_facts)
  moreover have "annotated ''192.168.0.0/24'' camera_record ''status'' = Some (PStr ''offline'')"
    "annotated ''192.168.0.0/24'' camera_record ''network_context'' =
       Some (PStr ''discovered_offline'')"
    by (simp_all add: annotated_status annotated_context camera_facts)
  moreover have "camera_record ''network_context'' = None"
    by (simp add: camera_record_def)
  ultimately show ?thesis
    by (simp add: camera_facts)
qed

subsection \<open>Scanners and the store\<close>

lemma upsert_members:
  assumes "upsert devices device = Returns devices'" and "x \<in> set devices'"
  shows "x \<in> set devices \<or> x = device \<or> (\<exists>existing \<in> set devices. x = existing ++ device)"
  using assms
proof (induction devices arbitrary: devices')
  case Nil
  then show ?case by auto
next
  case (Cons existing rest)
  from Cons.prems(1) obtain v w where v: "existing ''ip'' = Some v" and w: "device ''ip'' = Some w"
    by (auto simp add: bind_def item_def split: option.splits)
  show ?case
  proof (cases "py_eq v w")
    case True
    with Cons.prems v w show ?thesis by (auto simp add: bind_def item_def)
  next
    case False
    with Cons.prems(1) v w obtain r where r: "upsert rest device = Returns r"
      and d: "devices' = existing # r"
      by (auto simp add: bind_def item_def split: call.splits)
    from Cons.prems(2) d have "x = existing \<or> x \<in> set r" by simp
    then show ?thesis
    proof
      assume "x = existing"
      then show ?thesis by simp
    next
      assume "x \<in> set r"
      with r have "x \<in> set rest \<or> x = device \<or> (\<exists>existing \<in> set rest. x = existing ++ device)"
        by (rule Cons.IH)
      then show ?thesis by auto
    qed
  qed
qed

lemma upsert_hidden:
  assumes "upsert devices device = Returns devices'" and "device ''status'' = Some st"
    and "st \<noteq> PStr ''hidden''" and "x \<in> set devices'" and "is_hidden x"
  shows "x \<in> set devices"
proof -
  from assms(1,4)
  have "x \<in> set devices \<or> x = device \<or> (\<exists>existing \<in> set devices. x = existing ++ device)"
    by (rule upsert_members)
  moreover from assms(2,3,5) have "x \<noteq> device" by (auto simp add: is_hidden_def)
  moreover from assms(2,3,5) have "\<not> (\<exists>existing \<in> set devices. x = existing ++ device)"
    by (auto simp add: is_hidden_def map_add_def)
  ultimately show ?thesis by blast
qed

lemma collect_hidden:
  assumes "x \<in> set (collect devices future)" and "is_hidden x"
  shows "x \<in> set devices"
proof (cases "bind future (\<lambda>device.
           bind (item device ''status'') (\<lambda>status.
             if \<not> py_eq status (PStr ''hidden'') then upsert devices device
             else Returns devices))")
  case Raises
  with assms show ?thesis by (simp add: collect_def)
next
  case (Returns devices')
  with assms have x: "x \<in> set devices'" by (simp add: collect_def)
  from Returns obtain device st where "device ''status'' = Some st"
    and "if st \<noteq> PStr ''hidden'' then upsert devices device = Returns devices'
         else devices' = devices"
    by (auto simp add: item_def py_eq_str split: option.splits if_splits dest!: bind_Returns)
  with x assms(2) show ?thesis
    by (auto split: if_splits dest: upsert_hidden)
qed

lemma foldl_collect_hidden:
  assumes "x \<in> set (foldl collect devices futures)" and "is_hidden x"
  shows "x \<in> set devices"
  using assms
  by (induction futures arbitrary: devices) (auto dest: collect_hidden)

lemma scan_chunks_hidden:
  assumes "scan_chunks e known host_ips starts devices = Returns devices'"
    and "x \<in> set devices'" and "is_hidden x"
  shows "x \<in> set devices"
  using assms
  by (induction starts arbitrary: devices) (auto split: if_splits dest: foldl_collect_hidden)

lemma batch_hidden:
  assumes "x \<in> set (scan_network_for_devices e info known)" and "is_hidden x"
  shows "x \<in> set known"
proof (cases "hosts e (subnet info)")
  case Raises
  with assms(1) show ?thesis by (simp add: scan_network_for_devices_def bind_def)
next
  case (Returns host_ips)
  show ?thesis
  proof (cases "scan_chunks e known host_ips (chunk_starts (length host_ips))
                  (if known \<noteq> [] then known else [])")
    case Raises
    with Returns assms(1) show ?thesis by (simp add: scan_network_for_devices_def bind_def)
  next
    case (Returns devices')
    with \<open>hosts e (subnet info) = Returns host_ips\<close> assms(1) have x: "x \<in> set devices'"
      by (simp add: scan_network_for_devices_def bind_def)
    from Returns x assms(2) have "x \<in> set (if known \<noteq> [] then known else [])"
      by (rule scan_chunks_hidden)
    then show ?thesis by (simp split: if_splits)
  qed
qed

lemma collect_live_hidden:
  assumes "collect_live state future = state'"
  shows "(x \<in> set (fst state') \<and> is_hidden x \<longrightarrow> x \<in> set (fst state)) \<and>
         (x \<in> set (snd state') \<and> is_hidden x \<longrightarrow> x \<in> set (snd state))"
proof (cases "bind future (\<lambda>device.
           bind (item device ''status'') (\<lambda>status.
             if \<not> py_eq status (PStr ''hidden'') then
               bind (upsert (fst state) device) (\<lambda>devices'.
                 Returns (devices', snd state @ [device]))
             else Returns state))")
  case Raises
  with assms show ?thesis by (simp add: collect_live_def)
next
  case (Returns s)
  with assms have s: "s = state'" by (simp add: collect_live_def)
  from Returns obtain device st where st: "device ''status'' = Some st"
    and c: "if st \<noteq> PStr ''hidden''
         then \<exists>devices'. upsert (fst state) device = Returns devices' \<and>
                s = (devices', snd state @ [device])
         else s = state"
    by (auto simp add: item_def py_eq_str split: option.splits if_splits dest!: bind_Returns)
  show ?thesis
  proof (cases "st = PStr ''hidden''")
    case True
    with c s show ?thesis by simp
  next
    case False
    with c s obtain devices' where u: "upsert (fst state) device = Returns devices'"
      and s': "state' = (devices', snd state @ [device])" by auto
    from st False have "\<not> is_hidden device" by (simp add: is_hidden_def)
    with u st False s' show ?thesis
      by (auto dest: upsert_hidden)
  qed
qed

lemma foldl_collect_live_hidden:
  "(x \<in> set (fst (foldl collect_live state futures)) \<and> is_hidden x \<longrightarrow> x \<in> set (fst state)) \<and>
   (x \<in> set (snd (foldl collect_live state futures)) \<and> is_hidden x \<longrightarrow> x \<in> set (snd state))"
proof (induction futures arbitrary: state)
  case Nil
  show ?case by simp
next
  case (Cons future futures)
  from Cons.IH [of "collect_live state future"] collect_live_hidden [OF refl, of x state future]
  show ?case by auto
qed

lemma live_chunks_hidden:
  assumes "live_chunks e known host_ips starts state = (result, delivered)"
  shows "(\<forall>devices. result = Returns devices \<and> x \<in> set devices \<and> is_hidden x \<longrightarrow>
            x \<in> set (fst state)) \<and>
         (x \<in> set delivered \<and> is_hidden x \<longrightarrow> x \<in> set (snd state))"
  using assms
proof (induction starts arbitrary: state)
  case Nil
  then show ?case by auto
next
  case (Cons chunk_start rest)
  show ?case
  proof (cases "pool_raises e chunk_start")
    case True
    with Cons.prems show ?thesis by auto
  next
    case False
    let ?s = "foldl collect_live state
                (map (future_result e known) (chunk_ips host_ips chunk_start))"
    from False Cons.prems have "live_chunks e known host_ips rest ?s = (result, delivered)"
      by simp
    from Cons.IH [OF this]
      foldl_collect_live_hidden [of x state "map (future_result e known) (chunk_ips host_ips chunk_start)"]
    show ?thesis by blast
  qed
qed

lemma live_hidden:
  assumes "is_hidden x"
  shows "(x \<in> set (fst (scan_network_for_devices_live e info known)) \<longrightarrow> x \<in> set known) \<and>
         x \<notin> set (snd (scan_network_for_devices_live e info known))"
proof (cases "hosts e (subnet info)")
  case Raises
  then show ?thesis by (simp add: scan_network_for_devices_live_def)
next
  case (Returns host_ips)
  obtain result delivered where l: "live_chunks e known host_ips (chunk_starts (length host_ips))
                  (if known \<noteq> [] then known else [], []) = (result, delivered)"
    by (cases "live_chunks e known host_ips (chunk_starts (length host_ips))
                  (if known \<noteq> [] then known else [], [])") auto
  from live_chunks_hidden [OF l, of x] assms
  have d: "x \<notin> set delivered"
    and r: "\<And>devices. result = Returns devices \<Longrightarrow> x \<in> set devices \<Longrightarrow> x \<in> set known"
    by (auto split: if_splits)
  from Returns l d r show ?thesis
    by (cases result) (simp_all add: scan_network_for_devices_live_def)
qed

lemma known_record_hidden:
  assumes "known_record e device = Returns (Some k)"
  shows "\<not> is_hidden k"
proof -
  from assms obtain st where st: "device ''status'' = Some st" "st \<noteq> PStr ''hidden''"
    by (auto simp add: known_record_def item_def py_eq_str split: option.splits if_splits
        dest!: bind_Returns)
  with assms have "k ''status'' = Some st"
    by (auto simp add: known_record_def item_def bind_def py_eq_str Let_def
        split: option.splits if_splits)
  with st show ?thesis by (simp add: is_hidden_def)
qed

lemma store_devices_hidden:
  assumes "x \<in> set (fst (store_devices e devices stored))" and "is_hidden x"
  shows "x \<in> set stored"
  using assms(1)
proof (induction devices arbitrary: stored)
  case Nil
  then show ?case by simp
next
  case (Cons device rest)
  show ?case
  proof (cases "known_record e device")
    case Raises
    with Cons.prems show ?thesis by simp
  next
    case (Returns r)
    show ?thesis
    proof (cases r)
      case None
      with Returns Cons.prems have "x \<in> set (fst (store_devices e rest stored))" by simp
      then show ?thesis by (rule Cons.IH)
    next
      case (Some k)
      with Returns Cons.prems have "x \<in> set (fst (store_devices e rest (stored @ [k])))" by simp
      then have "x \<in> set (stored @ [k])" by (rule Cons.IH)
      moreover from Returns Some have "\<not> is_hidden k" by (auto dest: known_record_hidden)
      ultimately show ?thesis using assms(2) by auto
    qed
  qed
qed

lemma hidden_dropped:
  assumes "is_hidden d"
  shows "collect devices (Returns d) = devices" and "collect_live state (Returns d) = state"
    and "known_record e d = Returns None"
  using assms
  by (simp_all add: is_hidden_def collect_def collect_live_def known_record_def bind_def item_def)

text \<open>
  C8.  A record with the status \<^verbatim>\<open>hidden\<close> in the list that the batch or the live
  scanner returns is one of the known devices the scan was seeded with, never a record
  the scan classified; no hidden record is handed to the live callback; none is written
  by \<^verbatim>\<open>update_known_devices\<close>; and each of the three places drops a record classified
  hidden.
\<close>

theorem hidden_never_surfaced:
  "(x \<in> set (scan_network_for_devices e info known) \<and> is_hidden x \<longrightarrow> x \<in> set known) \<and>
   (x \<in> set (fst (scan_network_for_devices_live e info known)) \<and> is_hidden x \<longrightarrow>
      x \<in> set known) \<and>
   (is_hidden x \<longrightarrow> x \<notin> set (snd (scan_network_for_devices_live e info known))) \<and>
   (is_hidden x \<longrightarrow> x \<notin> set (fst (update_known_devices e devices))) \<and>
   (is_hidden x \<longrightarrow>
      collect devices (Returns x) = devices \<and> collect_live state (Returns x) = state \<and>
      known_record e x = Returns None)"
proof -
  have "x \<notin> set (fst (update_known_devices e devices))" if "is_hidden x"
    using that store_devices_hidden [of x e devices "[]"]
    by (auto simp add: update_known_devices_def)
  then show ?thesis
    using batch_hidden [of x e info known] live_hidden [of x e info known]
      hidden_dropped(1) [of x devices] hidden_dropped(2) [of x state] hidden_dropped(3) [of x e]
    by blast
qed

text \<open>
  Witness for C8: the address \<^verbatim>\<open>192.168.1.6\<close> was never recorded and does not answer;
  its record is hidden and appears in no list.
\<close>

theorem hidden_never_surfaced_witness:
  "scan_ip quiet_env [nas_record] ''192.168.1.6'' = Returns hidden_probe \<and>
   is_hidden hidden_probe \<and>
   hidden_probe \<notin> set [nas_record] \<and>
   hidden_probe \<notin> set (scan_network_for_devices quiet_env lan [nas_record]) \<and>
   hidden_probe \<notin> set (fst (scan_network_for_devices_live quiet_env lan [nas_record])) \<and>
   hidden_probe \<notin> set (snd (scan_network_for_devices_live quiet_env lan [nas_record])) \<and>
   hidden_probe \<notin> set (fst (update_known_devices quiet_env [nas_record, hidden_probe]))"
proof -
  have scan: "scan_ip quiet_env [nas_record] ''192.168.1.6'' = Returns hidden_probe"
    by (simp add: scan_ip_def check_device_status_def ping_host_def quiet_env_def silent_env_def
        standby_ports_def responsive_def nas_record_def bind_def item_def hidden_probe_def)
  have h: "is_hidden hidden_probe"
    by (simp add: is_hidden_def hidden_probe_def)
  have "hidden_probe ''ip'' \<noteq> nas_record ''ip''"
    by (simp add: hidden_probe_def nas_record_def)
  then have n: "hidden_probe \<notin> set [nas_record]"
    by auto
  from h n hidden_never_surfaced [of hidden_probe quiet_env lan "[nas_record]"
      "[nas_record, hidden_probe]"]
  have "hidden_probe \<notin> set (scan_network_for_devices quiet_env lan [nas_record])"
    "hidden_probe \<notin> set (fst (scan_network_for_devices_live quiet_env lan [nas_record]))"
    "hidden_probe \<notin> set (snd (scan_network_for_devices_live quiet_env lan [nas_record]))"
    "hidden_probe \<notin> set (fst (update_known_devices quiet_env [nas_record, hidden_probe]))"
    by blast+
  with scan h n show ?thesis
    by (intro conjI)
qed

lemma scan_chunks_raises:
  "\<exists>c \<in> set starts. pool_raises e c \<Longrightarrow> scan_chunks e known host_ips starts devices = Raises"
  by (induction starts arbitrary: devices) auto

lemma live_chunks_raises:
  "\<exists>c \<in> set starts. pool_raises e c \<Longrightarrow> fst (live_chunks e known host_ips starts state) = Raises"
proof (induction starts arbitrary: state)
  case Nil
  then show ?case by simp
next
  case (Cons c starts)
  show ?case
  proof (cases "pool_raises e c")
    case True
    then show ?thesis by simp
  next
    case False
    with Cons.prems have "\<exists>c \<in> set starts. pool_raises e c" by auto
    then have "fst (live_chunks e known host_ips starts
                 (foldl collect_live state
                    (map (future_result e known) (chunk_ips host_ips c)))) = Raises"
      by (rule Cons.IH)
    with False show ?thesis by simp
  qed
qed

lemma cli_chunks_raises:
  "\<exists>c \<in> set starts. pool_raises e c \<Longrightarrow> \<forall>c. \<not> interrupt e c \<Longrightarrow>
     cli_chunks e host_ips starts devices = Raises"
  by (induction starts arbitrary: devices) auto

lemma chunk_starts_0: "chunk_starts 0 = []"
  by (simp add: chunk_starts_def chunk_size_def)

text \<open>
  C10.  Each of the three scanners has a list as its value in every environment.  When
  the subnet string is no network, all three return the empty list; when a statement at
  the top level of a chunk raises, the batch and the live scanner return the empty list,
  and so does the command-line scanner when it was not interrupted before; the known
  devices the list was seeded with are lost with it, where a scan of a network without
  hosts returns them.
\<close>

theorem scanners_return_empty_on_exception:
  "(hosts e (subnet info) = Raises \<longrightarrow>
      scan_network_for_devices e info known = [] \<and>
      fst (scan_network_for_devices_live e info known) = [] \<and>
      scan_network_for_devices_with_progress e info = []) \<and>
   (hosts e (subnet info) = Returns host_ips \<and>
    (\<exists>c \<in> set (chunk_starts (length host_ips)). pool_raises e c) \<longrightarrow>
      scan_network_for_devices e info known = [] \<and>
      fst (scan_network_for_devices_live e info known) = []) \<and>
   (hosts e (subnet info) = Returns host_ips \<and>
    (\<exists>c \<in> set (chunk_starts (length host_ips)). pool_raises e c) \<and>
    (\<forall>c. \<not> interrupt e c) \<longrightarrow>
      scan_network_for_devices_with_progress e info = []) \<and>
   (hosts e (subnet info) = Returns [] \<longrightarrow> scan_network_for_devices e info known = known)"
proof (intro conjI impI)
  assume "hosts e (subnet info) = Raises"
  then show "scan_network_for_devices e info known = []"
    "fst (scan_network_for_devices_live e info known) = []"
    "scan_network_for_devices_with_progress e info = []"
    by (simp_all add: scan_network_for_devices_def scan_network_for_devices_live_def
        scan_network_for_devices_with_progress_def bind_def)
next
  assume a: "hosts e (subnet info) = Returns host_ips \<and>
    (\<exists>c \<in> set (chunk_starts (length host_ips)). pool_raises e c)"
  then show "scan_network_for_devices e info known = []"
    by (simp add: scan_network_for_devices_def bind_def scan_chunks_raises)
  obtain result delivered where
    l: "live_chunks e known host_ips (chunk_starts (length host_ips))
          (if known \<noteq> [] then known else [], []) = (result, delivered)"
    by (cases "live_chunks e known host_ips (chunk_starts (length host_ips))
                 (if known \<noteq> [] then known else [], [])") auto
  from a have "fst (live_chunks e known host_ips (chunk_starts (length host_ips))
                  (if known \<noteq> [] then known else [], [])) = Raises"
    by (intro live_chunks_raises) simp
  with l have "result = Raises" by simp
  with a l show "fst (scan_network_for_devices_live e info known) = []"
    by (simp add: scan_network_for_devices_live_def)
next
  assume "hosts e (subnet info) = Returns host_ips \<and>
    (\<exists>c \<in> set (chunk_starts (length host_ips)). pool_raises e c) \<and>
    (\<forall>c. \<not> interrupt e c)"
  then show "scan_network_for_devices_with_progress e info = []"
    by (simp add: scan_network_for_devices_with_progress_def bind_def cli_chunks_raises)
next
  assume "hosts e (subnet info) = Returns []"
  then show "scan_network_for_devices e info known = known"
    by (simp add: scan_network_for_devices_def bind_def chunk_starts_0)
qed

text \<open>
  Witness for C10: a subnet that does not parse, a pool that cannot be created, and a
  network without hosts, each with one known device.
\<close>

theorem scanners_return_empty_on_exception_witness:
  "hosts silent_env (subnet lan) = Raises \<and>
   scan_network_for_devices silent_env lan [nas_record] = [] \<and>
   fst (scan_network_for_devices_live silent_env lan [nas_record]) = [] \<and>
   scan_network_for_devices_with_progress silent_env lan = [] \<and>
   hosts broken_pool_env (subnet lan) = Returns [''192.168.1.5'', ''192.168.1.6''] \<and>
   pool_raises broken_pool_env 0 \<and>
   scan_network_for_devices broken_pool_env lan [nas_record] = [] \<and>
   fst (scan_network_for_devices_live broken_pool_env lan [nas_record]) = [] \<and>
   scan_network_for_devices_with_progress broken_pool_env lan = [] \<and>
   scan_network_for_devices empty_net_env lan [nas_record] = [nas_record]"
proof -
  have s: "hosts silent_env (subnet lan) = Raises"
    by (simp add: silent_env_def)
  have b: "hosts broken_pool_env (subnet lan) = Returns [''192.168.1.5'', ''192.168.1.6'']"
    "pool_raises broken_pool_env 0" "\<forall>c. \<not> interrupt broken_pool_env c"
    by (simp_all add: broken_pool_env_def quiet_env_def silent_env_def)
  have "chunk_starts (length [''192.168.1.5'', ''192.168.1.6'']) = [0]"
    by (simp add: chunk_starts_def chunk_size_def)
  with b have p: "\<exists>c \<in> set (chunk_starts (length [''192.168.1.5'', ''192.168.1.6''])).
                    pool_raises broken_pool_env c"
    by simp
  have n: "hosts empty_net_env (subnet lan) = Returns []"
    by (simp add: empty_net_env_def silent_env_def)
  from s scanners_return_empty_on_exception [of silent_env lan "[nas_record]"]
  have 1: "scan_network_for_devices silent_env lan [nas_record] = []"
    "fst (scan_network_for_devices_live silent_env lan [nas_record]) = []"
    "scan_network_for_devices_with_progress silent_env lan = []"
    by blast+
  from b p scanners_return_empty_on_exception [of broken_pool_env lan "[nas_record]"
      "[''192.168.1.5'', ''192.168.1.6'']"]
  have 2: "scan_network_for_devices broken_pool_env lan [nas_record] = []"
    "fst (scan_network_for_devices_live broken_pool_env lan [nas_record]) = []"
    "scan_network_for_devices_with_progress broken_pool_env lan = []"
    by blast+
  from n scanners_return_empty_on_exception [of empty_net_env lan "[nas_record]"]
  have 3: "scan_network_for_devices empty_net_env lan [nas_record] = [nas_record]"
    by blast
  from s b(1,2) 1 2 3 show ?thesis
    by (intro conjI)
qed

subsection \<open>Chunks\<close>

text \<open>
  The chunks of the scanners are consecutive slices of at most 255 addresses that
  together make up the list of hosts, in its order.
\<close>

lemma concat_chunks:
  "concat (map (\<lambda>i. take n (drop (i * n) xs)) [0 ..< k]) = take (k * n) xs"
proof (induction k)
  case 0
  show ?case by simp
next
  case (Suc k)
  have "take (k * n) xs @ take n (drop (k * n) xs) = take (k * n + n) xs"
    by (simp add: take_add)
  with Suc show ?case by (simp add: add.commute)
qed

lemma chunk_ips_take:
  "chunk_ips host_ips chunk_start = take chunk_size (drop chunk_start host_ips)"
  by (simp add: chunk_ips_def py_slice_def min_def)

lemma chunks_cover:
  "concat (map (chunk_ips host_ips) (chunk_starts (length host_ips))) = host_ips"
proof -
  let ?k = "(length host_ips + chunk_size - 1) div chunk_size"
  have "length host_ips \<le> ?k * chunk_size"
    by (simp add: chunk_size_def)
  then have "take (?k * chunk_size) host_ips = host_ips" by simp
  moreover have "concat (map (chunk_ips host_ips) (chunk_starts (length host_ips))) =
        concat (map (\<lambda>i. take chunk_size (drop (i * chunk_size) host_ips)) [0 ..< ?k])"
    by (simp add: chunk_starts_def chunk_ips_take comp_def)
  ultimately show ?thesis by (simp add: concat_chunks)
qed

lemma chunk_length:
  "length (chunk_ips host_ips chunk_start) \<le> chunk_size"
  by (simp add: chunk_ips_take)

end
